theory Spec2Isabelle
  imports Complex_Main
begin

section \<open>Data model of \<open>deepreg/dataset/loader/interface.py\<close>\<close>

text \<open>
  An array element is a number or NaN. Numbers are read as reals: rounding is left out,
  and an infinity behaves in every operation used here like a number beyond all others.
  Every comparison with NaN is false, and NaN propagates through \<open>min\<close>, \<open>max\<close> and
  division, as in numpy.
\<close>

datatype float64 = NaN | Num real

fun float_less :: "float64 \<Rightarrow> float64 \<Rightarrow> bool" where
  "float_less (Num a) (Num b) = (a < b)"
| "float_less x y = False"

fun float_min :: "float64 \<Rightarrow> float64 \<Rightarrow> float64" where
  "float_min (Num a) (Num b) = Num (min a b)"
| "float_min x y = NaN"

fun float_max :: "float64 \<Rightarrow> float64 \<Rightarrow> float64" where
  "float_max (Num a) (Num b) = Num (max a b)"
| "float_max x y = NaN"

fun float_divide :: "float64 \<Rightarrow> real \<Rightarrow> float64" where
  "float_divide (Num a) d = Num (a / d)"
| "float_divide NaN d = NaN"

text \<open>
  A numpy array is its shape together with its elements in row-major order. An array is
  well formed when it has as many elements as its shape says.
\<close>

record ndarray =
  shape :: "nat list"
  data :: "float64 list"

definition wf_ndarray :: "ndarray \<Rightarrow> bool" where
  "wf_ndarray a = (length (data a) = prod_list (shape a))"

text \<open>
  The exceptions the module can raise. A \<open>ValueError\<close> carries what its message
  reports (sample indices, array name, shape, label counts, empty group ids, a negative
  dimension).
\<close>

datatype value_error =
    ImageIsNone
  | LabelNoneMismatch
  | ZeroSizeReduction
  | ValueOutsideUnitRange "int list" string
  | ImageDimension "int list" string "nat list"
  | LabelDimension "int list" string "nat list"
  | NumLabelsDiffer "int list" nat nat
  | ShapeLengthNotThree
  | MinOfEmptySequence
  | GroupsEmpty "int list"
  | NegativeDimension int

datatype error =
    ValueError value_error
  | IndexError
  | KeyError
  | TypeError
  | AttributeError
  | AssertionError
  | NotImplementedError
  | InvalidArgumentError

datatype warning =
    MovingShapeWarning "int list" "nat list" "nat list"
  | FixedShapeWarning "int list" "nat list" "nat list"

subsection \<open>numpy primitives used by the loader\<close>

text \<open>
  \<open>np.min\<close> and \<open>np.max\<close> raise \<open>ValueError\<close> on an array without elements; the
  result is NaN as soon as one element is.
\<close>

fun np_min :: "float64 list \<Rightarrow> error + float64" where
  "np_min [] = Inl (ValueError ZeroSizeReduction)"
| "np_min (x # xs) = Inr (fold float_min xs x)"

fun np_max :: "float64 list \<Rightarrow> error + float64" where
  "np_max [] = Inl (ValueError ZeroSizeReduction)"
| "np_max (x # xs) = Inr (fold float_max xs x)"

text \<open>
  \<open>arr[..., i]\<close>: index the last axis with a Python integer (a negative one counts
  from the end); \<open>IndexError\<close> when the array has no axis or the index is out of
  bounds.
\<close>

definition index_last :: "ndarray \<Rightarrow> int \<Rightarrow> error + ndarray" where
  "index_last a i =
     (if shape a = [] then Inl IndexError
      else
        let n = last (shape a);
            j = (if i < 0 then int n + i else i)
        in if 0 \<le> j \<and> j < int n
           then Inr \<lparr>shape = butlast (shape a),
                     data = map (\<lambda>k. data a ! (k * n + nat j))
                                [0 ..< prod_list (butlast (shape a))]\<rparr>
           else Inl IndexError)"

text \<open>\<open>np.asarray(xs, dtype=np.float32)\<close> of a list of integers: a 1-D array.\<close>

definition asarray :: "int list \<Rightarrow> ndarray" where
  "asarray xs = \<lparr>shape = [length xs], data = map (\<lambda>i. Num (real_of_int i)) xs\<rparr>"

text \<open>\<open>arr / 255.0\<close>: elementwise, same shape.\<close>

definition divide_255 :: "ndarray \<Rightarrow> ndarray" where
  "divide_255 a = a\<lparr>data := map (\<lambda>x. float_divide x 255) (data a)\<rparr>"

subsection \<open>Label sampling policy\<close>

datatype sample_label = All | Sample | Channel int

text \<open>
  Modelled from the spec: \<open>get_label_indices\<close> is defined in
  \<open>deepreg.dataset.util\<close>, outside this module. The specification gives the policy
  options: "all" selects every channel in order; "sample" selects one random channel
  per call; otherwise a single fixed channel index. The random draw is the argument
  \<open>r\<close>.
\<close>

definition get_label_indices :: "nat \<Rightarrow> sample_label \<Rightarrow> nat \<Rightarrow> int list" where
  "get_label_indices num_labels policy r =
     (case policy of
        All \<Rightarrow> map int [0 ..< num_labels]
      | Sample \<Rightarrow> [int (r mod num_labels)]
      | Channel c \<Rightarrow> [c])"

section \<open>\<open>GeneratorDataLoader.validate_images_and_labels\<close>\<close>

definition check_unit_range :: "int list \<Rightarrow> string \<Rightarrow> ndarray \<Rightarrow> error option" where
  "check_unit_range image_indices name arr =
     (case np_min (data arr) of
        Inl e \<Rightarrow> Some e
      | Inr lo \<Rightarrow>
          if float_less lo (Num 0)
          then Some (ValueError (ValueOutsideUnitRange image_indices name))
          else (case np_max (data arr) of
                  Inl e \<Rightarrow> Some e
                | Inr hi \<Rightarrow>
                    if float_less (Num 1) hi
                    then Some (ValueError (ValueOutsideUnitRange image_indices name))
                    else None))"

text \<open>An element that is a number num_within the given bounds.\<close>

fun num_within :: "real \<Rightarrow> real \<Rightarrow> float64 \<Rightarrow> bool" where
  "num_within lo hi (Num r) = (lo \<le> r \<and> r \<le> hi)"
| "num_within lo hi NaN = False"

text \<open>An array that is not empty and whose every element is a number num_within [0, 1].\<close>

definition in_unit_range :: "ndarray \<Rightarrow> bool" where
  "in_unit_range a = (data a \<noteq> [] \<and> list_all (num_within 0 1) (data a))"

text \<open>
  What the range check lets through: an array that is not empty and either holds a NaN or
  has every element num_within [0, 1].
\<close>

definition range_check_passes :: "ndarray \<Rightarrow> bool" where
  "range_check_passes a =
     (data a \<noteq> [] \<and> (NaN \<in> set (data a) \<or> list_all (num_within 0 1) (data a)))"

text \<open>The loop over the four named arrays; an absent array is skipped.\<close>

fun check_values :: "int list \<Rightarrow> (ndarray option \<times> string) list \<Rightarrow> error option" where
  "check_values image_indices [] = None"
| "check_values image_indices ((None, name) # rest) = check_values image_indices rest"
| "check_values image_indices ((Some arr, name) # rest) =
     (case check_unit_range image_indices name arr of
        Some e \<Rightarrow> Some e
      | None \<Rightarrow> check_values image_indices rest)"

fun check_image_dims :: "int list \<Rightarrow> (ndarray \<times> string) list \<Rightarrow> error option" where
  "check_image_dims image_indices [] = None"
| "check_image_dims image_indices ((arr, name) # rest) =
     (if length (shape arr) \<noteq> 3
      then Some (ValueError (ImageDimension image_indices name (shape arr)))
      else check_image_dims image_indices rest)"

fun check_label_dims :: "int list \<Rightarrow> (ndarray \<times> string) list \<Rightarrow> error option" where
  "check_label_dims image_indices [] = None"
| "check_label_dims image_indices ((arr, name) # rest) =
     (if length (shape arr) \<notin> {3, 4}
      then Some (ValueError (LabelDimension image_indices name (shape arr)))
      else check_label_dims image_indices rest)"

definition num_labels_of :: "ndarray \<Rightarrow> nat" where
  "num_labels_of label = (if length (shape label) = 3 then 1 else last (shape label))"

text \<open>
  The result is the list of warnings logged and the exception raised, if any
  (\<open>None\<close>: the function returned).
\<close>

definition validate_images_and_labels ::
  "ndarray option \<Rightarrow> ndarray option \<Rightarrow> ndarray option \<Rightarrow> ndarray option \<Rightarrow> int list
     \<Rightarrow> warning list \<times> error option" where
  "validate_images_and_labels moving_image fixed_image moving_label fixed_label image_indices =
     (case moving_image of
        None \<Rightarrow> ([], Some (ValueError ImageIsNone))
      | Some mi \<Rightarrow>
     (case fixed_image of
        None \<Rightarrow> ([], Some (ValueError ImageIsNone))
      | Some fi \<Rightarrow>
     if (moving_label = None) \<noteq> (fixed_label = None)
     then ([], Some (ValueError LabelNoneMismatch))
     else
     (case check_values image_indices
             [(moving_image, ''moving_image''), (fixed_image, ''fixed_image''),
              (moving_label, ''moving_label''), (fixed_label, ''fixed_label'')] of
        Some e \<Rightarrow> ([], Some e)
      | None \<Rightarrow>
     (case check_image_dims image_indices
             [(mi, ''moving_image''), (fi, ''fixed_image'')] of
        Some e \<Rightarrow> ([], Some e)
      | None \<Rightarrow>
     (case moving_label of
        None \<Rightarrow> ([], None)
      | Some ml \<Rightarrow>
     (case fixed_label of
        None \<Rightarrow> ([], Some AttributeError)
      | Some fl \<Rightarrow>
     (case check_label_dims image_indices
             [(ml, ''moving_label''), (fl, ''fixed_label'')] of
        Some e \<Rightarrow> ([], Some e)
      | None \<Rightarrow>
          let w1 = (if take 3 (shape mi) \<noteq> take 3 (shape ml)
                    then [MovingShapeWarning image_indices (shape mi) (shape ml)] else []);
              w2 = (if take 3 (shape fi) \<noteq> take 3 (shape fl)
                    then [FixedShapeWarning image_indices (shape fi) (shape fl)] else []);
              num_labels_moving = num_labels_of ml;
              num_labels_fixed = num_labels_of fl
          in (w1 @ w2,
              if num_labels_moving \<noteq> num_labels_fixed
              then Some (ValueError
                           (NumLabelsDiffer image_indices num_labels_moving num_labels_fixed))
              else None))))))))"

section \<open>\<open>GeneratorDataLoader.sample_image_label\<close>\<close>

text \<open>
  A sample is the yielded \<open>dict\<close>, kept as the list of its entries in insertion order.
  A generator's outcome is the warnings logged, the samples yielded and the exception
  that ended it, if any.
\<close>

type_synonym sample = "(string \<times> ndarray) list"

type_synonym outcome = "warning list \<times> sample list \<times> error option"

text \<open>The loop over the selected label indices of a multi-label volume.\<close>

fun yield_labels ::
  "ndarray \<Rightarrow> ndarray \<Rightarrow> ndarray \<Rightarrow> ndarray \<Rightarrow> int list \<Rightarrow> int list
     \<Rightarrow> sample list \<times> error option" where
  "yield_labels mi fi ml fl image_indices [] = ([], None)"
| "yield_labels mi fi ml fl image_indices (label_index # rest) =
     (let indices = asarray (image_indices @ [label_index]) in
      case index_last ml label_index of
        Inl e \<Rightarrow> ([], Some e)
      | Inr mslice \<Rightarrow>
     (case index_last fl label_index of
        Inl e \<Rightarrow> ([], Some e)
      | Inr fslice \<Rightarrow>
          let (ys, err) = yield_labels mi fi ml fl image_indices rest
          in ([(''moving_image'', mi), (''fixed_image'', fi), (''indices'', indices),
               (''moving_label'', mslice), (''fixed_label'', fslice)] # ys, err)))"

definition sample_image_label ::
  "sample_label \<Rightarrow> nat \<Rightarrow> ndarray option \<Rightarrow> ndarray option \<Rightarrow> ndarray option
     \<Rightarrow> ndarray option \<Rightarrow> int list \<Rightarrow> outcome" where
  "sample_image_label policy r moving_image fixed_image moving_label fixed_label image_indices =
     (case validate_images_and_labels
             moving_image fixed_image moving_label fixed_label image_indices of
        (ws, Some e) \<Rightarrow> (ws, [], Some e)
      | (ws, None) \<Rightarrow>
     (case (moving_image, fixed_image) of
        (Some mi, Some fi) \<Rightarrow>
     (case moving_label of
        None \<Rightarrow>
          (ws, [[(''moving_image'', mi), (''fixed_image'', fi),
                 (''indices'', asarray (image_indices @ [- 1]))]], None)
      | Some ml \<Rightarrow>
     (case fixed_label of
        None \<Rightarrow> (ws, [], Some TypeError)
      | Some fl \<Rightarrow>
          if length (shape ml) = 4
          then
            let label_indices = get_label_indices (shape ml ! 3) policy r;
                (ys, err) = yield_labels mi fi ml fl image_indices label_indices
            in (ws, ys, err)
          else
            (ws, [[(''moving_image'', mi), (''fixed_image'', fi),
                   (''moving_label'', ml), (''fixed_label'', fl),
                   (''indices'', asarray (image_indices @ [0]))]], None)))
      | _ \<Rightarrow> (ws, [], Some TypeError)))"

section \<open>\<open>GeneratorDataLoader.data_generator\<close>\<close>

text \<open>
  The state of a loader as \<open>DataLoader.__init__\<close> sets it, extended by the four
  backends of \<open>GeneratorDataLoader\<close>. A backend is represented by its \<open>get_data\<close>,
  which returns an array or raises.
\<close>

record data_loader =
  labeled :: "bool option"
  num_indices :: "nat option"
  sample_label :: "sample_label option"
  seed :: "int option"

record 'i generator_data_loader = data_loader +
  loader_moving_image :: "'i \<Rightarrow> error + ndarray"
  loader_fixed_image :: "'i \<Rightarrow> error + ndarray"
  loader_moving_label :: "'i \<Rightarrow> error + ndarray"
  loader_fixed_label :: "'i \<Rightarrow> error + ndarray"

text \<open>One generator after another: the second runs only if the first did not raise.\<close>

fun outcome_then :: "outcome \<Rightarrow> outcome \<Rightarrow> outcome" where
  "outcome_then (ws, ys, Some e) later = (ws, ys, Some e)"
| "outcome_then (ws, ys, None) (ws', ys', err) = (ws @ ws', ys @ ys', err)"

text \<open>\<open>loader.get_data(index=i) if self.labeled else None\<close>\<close>

definition fetch_label ::
  "bool option \<Rightarrow> ('i \<Rightarrow> error + ndarray) \<Rightarrow> 'i \<Rightarrow> error + ndarray option" where
  "fetch_label lab loader i =
     (if lab = Some True
      then (case loader i of Inl e \<Rightarrow> Inl e | Inr a \<Rightarrow> Inr (Some a))
      else Inr None)"

text \<open>
  The loop over the index tuples of \<open>sample_index_generator\<close>, given as a list; \<open>rnd k\<close>
  is the random draw available to the label sampling of the \<open>k\<close>-th tuple, and
  \<open>policy\<close> is the policy that \<open>self.sample_label\<close> names.
\<close>

fun data_generator ::
  "'i generator_data_loader \<Rightarrow> sample_label \<Rightarrow> (nat \<Rightarrow> nat) \<Rightarrow> ('i \<times> 'i \<times> int list) list
     \<Rightarrow> outcome" where
  "data_generator L policy rnd [] = ([], [], None)"
| "data_generator L policy rnd ((moving_index, fixed_index, image_indices) # rest) =
     (case loader_moving_image L moving_index of
        Inl e \<Rightarrow> ([], [], Some e)
      | Inr mi \<Rightarrow>
     (case loader_fixed_image L fixed_index of
        Inl e \<Rightarrow> ([], [], Some e)
      | Inr fi \<Rightarrow>
     (case fetch_label (labeled L) (loader_moving_label L) moving_index of
        Inl e \<Rightarrow> ([], [], Some e)
      | Inr moving_label \<Rightarrow>
     (case fetch_label (labeled L) (loader_fixed_label L) fixed_index of
        Inl e \<Rightarrow> ([], [], Some e)
      | Inr fixed_label \<Rightarrow>
          outcome_then
            (sample_image_label policy (rnd 0)
               (Some (divide_255 mi)) (Some (divide_255 fi))
               moving_label fixed_label image_indices)
            (data_generator L policy (\<lambda>k. rnd (Suc k)) rest)))))"

section \<open>Paired, unpaired and concatenated loaders\<close>

record paired_data_loader = data_loader +
  paired_moving_image_shape :: "int list"
  paired_fixed_image_shape :: "int list"
  num_images :: "int option"

record unpaired_data_loader = data_loader +
  image_shape :: "int list"
  unpaired_num_samples :: "int option"

definition AbstractPairedDataLoader_init ::
  "int list \<Rightarrow> int list \<Rightarrow> bool option \<Rightarrow> sample_label option \<Rightarrow> int option
     \<Rightarrow> error + paired_data_loader" where
  "AbstractPairedDataLoader_init moving_image_shape fixed_image_shape lab policy sd =
     (if length moving_image_shape \<noteq> 3 \<or> length fixed_image_shape \<noteq> 3
      then Inl (ValueError ShapeLengthNotThree)
      else Inr \<lparr>labeled = lab, num_indices = Some 2, sample_label = policy, seed = sd,
                paired_moving_image_shape = moving_image_shape,
                paired_fixed_image_shape = fixed_image_shape,
                num_images = None\<rparr>)"

definition AbstractUnpairedDataLoader_init ::
  "int list \<Rightarrow> bool option \<Rightarrow> sample_label option \<Rightarrow> int option
     \<Rightarrow> error + unpaired_data_loader" where
  "AbstractUnpairedDataLoader_init shp lab policy sd =
     (if length shp \<noteq> 3
      then Inl (ValueError ShapeLengthNotThree)
      else Inr \<lparr>labeled = lab, num_indices = Some 3, sample_label = policy, seed = sd,
                image_shape = shp, unpaired_num_samples = None\<rparr>)"

text \<open>
  A loader object is one of the classes of the module. \<open>Plain\<close> is the base
  \<open>DataLoader\<close>, whose properties raise \<open>NotImplementedError\<close>.
\<close>

datatype loader =
    Plain data_loader
  | Paired paired_data_loader
  | Unpaired unpaired_data_loader
  | Concatenated data_loader "loader list"

definition ConcatenatedDataLoader_init :: "loader list \<Rightarrow> error + loader" where
  "ConcatenatedDataLoader_init data_loaders =
     (if length data_loaders > 0
      then Inr (Concatenated
                  \<lparr>labeled = None, num_indices = None, sample_label = None, seed = None\<rparr>
                  data_loaders)
      else Inl AssertionError)"

text \<open>
  A list comprehension over calls that can raise: the values in order, or the first
  exception.
\<close>

fun collect :: "(error + 'a) list \<Rightarrow> error + 'a list" where
  "collect [] = Inr []"
| "collect (Inl e # rest) = Inl e"
| "collect (Inr v # rest) = (case collect rest of Inl e \<Rightarrow> Inl e | Inr vs \<Rightarrow> Inr (v # vs))"

text \<open>
  Python's \<open>sum\<close>, starting from 0; adding \<open>None\<close> to an integer raises
  \<open>TypeError\<close>.
\<close>

fun py_sum :: "int \<Rightarrow> int option list \<Rightarrow> error + int" where
  "py_sum acc [] = Inr acc"
| "py_sum acc (None # rest) = Inl TypeError"
| "py_sum acc (Some n # rest) = py_sum (acc + n) rest"

fun moving_image_shape :: "loader \<Rightarrow> error + int list" where
  "moving_image_shape (Plain L) = Inl NotImplementedError"
| "moving_image_shape (Paired L) = Inr (paired_moving_image_shape L)"
| "moving_image_shape (Unpaired L) = Inr (image_shape L)"
| "moving_image_shape (Concatenated L []) = Inl IndexError"
| "moving_image_shape (Concatenated L (child # rest)) = moving_image_shape child"

fun fixed_image_shape :: "loader \<Rightarrow> error + int list" where
  "fixed_image_shape (Plain L) = Inl NotImplementedError"
| "fixed_image_shape (Paired L) = Inr (paired_fixed_image_shape L)"
| "fixed_image_shape (Unpaired L) = Inr (image_shape L)"
| "fixed_image_shape (Concatenated L []) = Inl IndexError"
| "fixed_image_shape (Concatenated L (child # rest)) = fixed_image_shape child"

fun num_samples :: "loader \<Rightarrow> error + int option" where
  "num_samples (Plain L) = Inl NotImplementedError"
| "num_samples (Paired L) = Inr (num_images L)"
| "num_samples (Unpaired L) = Inr (unpaired_num_samples L)"
| "num_samples (Concatenated L children) =
     (case collect (map num_samples children) of
        Inl e \<Rightarrow> Inl e
      | Inr vs \<Rightarrow> (case py_sum 0 vs of Inl e \<Rightarrow> Inl e | Inr n \<Rightarrow> Inr (Some n)))"

text \<open>\<open>close\<close>: \<open>pass\<close> in \<open>DataLoader\<close>; the concatenated loader closes every child.\<close>

fun close :: "loader \<Rightarrow> loader" where
  "close (Concatenated L children) = Concatenated L (map close children)"
| "close L = L"

section \<open>\<open>FileLoader\<close>\<close>

record 's file_loader =
  dir_path :: string
  name :: string
  grouped :: bool
  group_ids :: "int list option"
  group_sample_dict :: "(int \<rightharpoonup> 's list) option"

definition FileLoader_init :: "string \<Rightarrow> string \<Rightarrow> bool \<Rightarrow> 's file_loader" where
  "FileLoader_init d n g =
     \<lparr>dir_path = d, name = n, grouped = g, group_ids = None, group_sample_dict = None\<rparr>"

text \<open>\<open>[len(self.group_sample_dict[g]) for g in self.group_ids]\<close>\<close>

fun group_lengths :: "(int \<rightharpoonup> 's list) option \<Rightarrow> int list \<Rightarrow> error + nat list" where
  "group_lengths d [] = Inr []"
| "group_lengths None (g # gs) = Inl TypeError"
| "group_lengths (Some m) (g # gs) =
     (case m g of
        None \<Rightarrow> Inl KeyError
      | Some samples \<Rightarrow>
          (case group_lengths (Some m) gs of
             Inl e \<Rightarrow> Inl e
           | Inr ns \<Rightarrow> Inr (length samples # ns)))"

text \<open>Python's \<open>min\<close> of a list: \<open>ValueError\<close> on the empty list.\<close>

fun py_min :: "nat list \<Rightarrow> error + nat" where
  "py_min [] = Inl (ValueError MinOfEmptySequence)"
| "py_min (n # ns) = Inr (fold min ns n)"

text \<open>\<open>[g for g in self.group_ids if len(self.group_sample_dict[g]) == 0]\<close>\<close>

fun empty_groups :: "(int \<rightharpoonup> 's list) \<Rightarrow> int list \<Rightarrow> error + int list" where
  "empty_groups m [] = Inr []"
| "empty_groups m (g # gs) =
     (case m g of
        None \<Rightarrow> Inl KeyError
      | Some samples \<Rightarrow>
          (case empty_groups m gs of
             Inl e \<Rightarrow> Inl e
           | Inr es \<Rightarrow> Inr (if length samples = 0 then g # es else es)))"

definition get_num_groups :: "'s file_loader \<Rightarrow> error + nat" where
  "get_num_groups L =
     (if \<not> grouped L then Inl AssertionError
      else (case group_ids L of None \<Rightarrow> Inl TypeError | Some gs \<Rightarrow> Inr (length gs)))"

definition get_num_images_per_group :: "'s file_loader \<Rightarrow> error + nat list" where
  "get_num_images_per_group L =
     (if \<not> grouped L then Inl AssertionError
      else
     (case group_ids L of
        None \<Rightarrow> Inl TypeError
      | Some gs \<Rightarrow>
     (case group_lengths (group_sample_dict L) gs of
        Inl e \<Rightarrow> Inl e
      | Inr num_images_per_group \<Rightarrow>
     (case py_min num_images_per_group of
        Inl e \<Rightarrow> Inl e
      | Inr least \<Rightarrow>
          if least = 0
          then (case group_sample_dict L of
                  None \<Rightarrow> Inl TypeError
                | Some m \<Rightarrow>
                    (case empty_groups m gs of
                       Inl e \<Rightarrow> Inl e
                     | Inr es \<Rightarrow> Inl (ValueError (GroupsEmpty es))))
          else Inr num_images_per_group))))"

text \<open>
  Modelled from the spec: \<open>set_group_structure\<close> is implemented by the format
  backends, outside this module (here it raises \<open>NotImplementedError\<close>). The
  specification says that it populates \<open>group_ids\<close> and \<open>group_sample_dict\<close>, the
  latter mapping a group id to the ordered sequence of the sample ids of the group;
  \<open>groups\<close> is what the backend finds in storage.
\<close>

definition set_group_structure :: "'s file_loader \<Rightarrow> (int \<times> 's list) list \<Rightarrow> 's file_loader" where
  "set_group_structure L groups =
     L\<lparr>group_ids := Some (map fst groups), group_sample_dict := Some (map_of groups)\<rparr>"

text \<open>
  Modelled from the spec: the construction of a grouped loader and its sampling belong
  to the format-specific loaders, outside this module. The specification requires that an
  empty group is detected at group-structure-build time, not lazily during sampling: the
  construction builds the group structure and inspects it with
  \<open>get_num_images_per_group\<close>; only a constructed loader, with its group sizes, is
  sampled from. \<open>grouped_run\<close> is a construction followed by the sampling \<open>sampler\<close>;
  its result is what was sampled and the exception raised, if any.
\<close>

definition grouped_loader_init ::
  "string \<Rightarrow> string \<Rightarrow> (int \<times> 's list) list \<Rightarrow> error + ('s file_loader \<times> nat list)" where
  "grouped_loader_init d n groups =
     (let L = set_group_structure (FileLoader_init d n True) groups
      in case get_num_images_per_group L of
           Inl e \<Rightarrow> Inl e
         | Inr num_images_per_group \<Rightarrow> Inr (L, num_images_per_group))"

definition grouped_run ::
  "string \<Rightarrow> string \<Rightarrow> (int \<times> 's list) list \<Rightarrow> ('s file_loader \<Rightarrow> nat list \<Rightarrow> 'x list)
     \<Rightarrow> 'x list \<times> error option" where
  "grouped_run d n groups sampler =
     (case grouped_loader_init d n groups of
        Inl e \<Rightarrow> ([], Some e)
      | Inr (L, num_images_per_group) \<Rightarrow> (sampler L num_images_per_group, None))"

section \<open>\<open>DataLoader.get_dataset_and_preprocess\<close>\<close>

text \<open>
  The part of \<open>tf.data.Dataset\<close> the method uses. One traversal of a dataset is a
  finite list of elements, or an endless sequence once \<open>repeat()\<close> was applied.
\<close>

datatype 'a dataset = Finite "'a list" | Endless "nat \<Rightarrow> 'a"

text \<open>
  \<open>shuffle(buffer_size)\<close>: the buffer is filled with the first elements; each step
  emits a randomly chosen element of the buffer and puts the next input element in its
  place (when the input is used up, the buffer shrinks). \<open>draw k\<close> is the \<open>k\<close>-th
  random number.
\<close>

function shuffle_buffer :: "(nat \<Rightarrow> nat) \<Rightarrow> nat \<Rightarrow> 'a list \<Rightarrow> 'a list \<Rightarrow> 'a list" where
  "shuffle_buffer draw k buffer rest =
     (if buffer = [] then []
      else
        let i = draw k mod length buffer
        in buffer ! i #
           (case rest of
              [] \<Rightarrow> shuffle_buffer draw (Suc k) (take i buffer @ drop (Suc i) buffer) []
            | x # rest' \<Rightarrow> shuffle_buffer draw (Suc k) (buffer[i := x]) rest'))"
  by pat_completeness auto
termination
proof (relation "measure (\<lambda>(draw, k, buffer, rest). length buffer + length rest)", goal_cases)
  case 1
  show ?case by simp
next
  case (2 draw k buffer i)
  have less: "a + (n - Suc a) < n" if "a < n" for a n :: nat
    using that by arith
  have "draw k mod length buffer < length buffer" using 2 by simp
  from less [OF this] show ?case using 2 by simp
next
  case (3 draw k buffer i x rest')
  then show ?case by simp
qed

declare shuffle_buffer.simps [simp del]

text \<open>
  With \<open>reshuffle_each_iteration=True\<close> the \<open>e\<close>-th traversal of the shuffled
  dataset uses its own draws \<open>draws e\<close>. A buffer size that is not positive is
  rejected when the dataset is built.
\<close>

definition shuffle :: "int \<Rightarrow> (nat \<Rightarrow> nat \<Rightarrow> nat) \<Rightarrow> 'a list \<Rightarrow> error + (nat \<Rightarrow> 'a list)" where
  "shuffle buffer_size draws xs =
     (if buffer_size \<le> 0 then Inl InvalidArgumentError
      else Inr (\<lambda>e. shuffle_buffer (draws e) 0
                       (take (nat buffer_size) xs) (drop (nat buffer_size) xs)))"

text \<open>
  \<open>batch(batch_size, drop_remainder)\<close> on a finite traversal: consecutive groups of
  \<open>b\<close> elements; the last group, when shorter, is kept unless \<open>drop_remainder\<close>.
  A batch size that is not positive is rejected when the dataset is built: a negative
  one with \<open>drop_remainder\<close> by the static shape of the batches (\<open>ValueError\<close>),
  otherwise by the operation itself. Sizes are taken to fit a 64-bit integer.
\<close>

function batch_list :: "nat \<Rightarrow> bool \<Rightarrow> 'a list \<Rightarrow> 'a list list" where
  "batch_list b drop_remainder xs =
     (if b = 0 \<or> xs = [] then []
      else if length xs < b then (if drop_remainder then [] else [xs])
      else take b xs # batch_list b drop_remainder (drop b xs))"
  by pat_completeness auto
termination
  by (relation "measure (\<lambda>(b, drop_remainder, xs). length xs)") auto

declare batch_list.simps [simp del]

definition batch :: "int \<Rightarrow> bool \<Rightarrow> 'a dataset \<Rightarrow> error + 'a list dataset" where
  "batch batch_size drop_remainder ds =
     (if batch_size < 0 \<and> drop_remainder
      then Inl (ValueError (NegativeDimension batch_size))
      else if batch_size \<le> 0 then Inl InvalidArgumentError
      else
        let b = nat batch_size
        in case ds of
             Finite xs \<Rightarrow> Inr (Finite (batch_list b drop_remainder xs))
           | Endless f \<Rightarrow> Inr (Endless (\<lambda>j. map f [j * b ..< j * b + b])))"

text \<open>
  \<open>repeat()\<close> after a dataset whose \<open>k\<close>-th traversal is \<open>pass k\<close> (all of one
  length): the traversals one after another, without end; an empty dataset stays empty.
\<close>

definition repeat :: "(nat \<Rightarrow> 'a list) \<Rightarrow> 'a dataset" where
  "repeat pass =
     (let n = length (pass 0)
      in if n = 0 then Finite []
         else Endless (\<lambda>i. pass (i div n) ! (i mod n)))"

text \<open>\<open>map(f)\<close> where \<open>f\<close> may use fresh randomness for each element.\<close>

fun map_indexed :: "(nat \<Rightarrow> 'a \<Rightarrow> 'b) \<Rightarrow> 'a dataset \<Rightarrow> 'b dataset" where
  "map_indexed f (Finite xs) = Finite (map (\<lambda>(j, x). f j x) (enumerate 0 xs))"
| "map_indexed f (Endless g) = Endless (\<lambda>j. f j (g j))"

text \<open>
  The collaborators of \<open>deepreg.dataset.preprocess\<close> and the random numbers of the
  shuffle are parameters: \<open>resize_inputs\<close> gets a sample and the two shapes;
  \<open>affine_transform\<close> gets the two shapes and the batch size of
  \<open>AffineTransformation3D\<close>, the number of the batch (its own randomness) and the
  batch; \<open>shuffle_draw e\<close> gives the draws of the \<open>e\<close>-th traversal.
\<close>

record 'r collaborators =
  resize_inputs :: "'r \<Rightarrow> int list \<Rightarrow> int list \<Rightarrow> 'r"
  affine_transform :: "int list \<Rightarrow> int list \<Rightarrow> int \<Rightarrow> nat \<Rightarrow> 'r list \<Rightarrow> 'r list"
  shuffle_draw :: "nat \<Rightarrow> nat \<Rightarrow> nat"

text \<open>
  \<open>records\<close> is what one traversal of \<open>self.get_dataset()\<close> yields, \<open>mshape\<close> and
  \<open>fshape\<close> are \<open>self.moving_image_shape\<close> and \<open>self.fixed_image_shape\<close>. The
  result is the first traversal of the returned dataset, or the exception raised while
  the pipeline is built.
\<close>

definition get_dataset_and_preprocess ::
  "'r collaborators \<Rightarrow> 'r list \<Rightarrow> int list \<Rightarrow> int list
     \<Rightarrow> bool \<Rightarrow> int \<Rightarrow> bool \<Rightarrow> int \<Rightarrow> error + 'r list dataset" where
  "get_dataset_and_preprocess env records mshape fshape
       training batch_size rep shuffle_buffer_num_batch =
     (let resized = map (\<lambda>x. resize_inputs env x mshape fshape) records;
          shuffled =
            (if training \<and> shuffle_buffer_num_batch > 0
             then shuffle (batch_size * shuffle_buffer_num_batch) (shuffle_draw env) resized
             else Inr (\<lambda>e. resized))
      in case shuffled of
           Inl e \<Rightarrow> Inl e
         | Inr pass \<Rightarrow>
             let repeated = (if rep then repeat pass else Finite (pass 0))
             in case batch batch_size training repeated of
                  Inl e \<Rightarrow> Inl e
                | Inr batched \<Rightarrow>
                    if training
                    then Inr (map_indexed (affine_transform env mshape fshape batch_size) batched)
                    else Inr batched)"

section \<open>Properties of the validation\<close>

lemma fold_float_min_NaN_acc: "fold float_min xs NaN = NaN"
  by (induction xs) simp_all

lemma fold_float_max_NaN_acc: "fold float_max xs NaN = NaN"
  by (induction xs) simp_all

lemma fold_float_min_NaN: "NaN \<in> set (x # xs) \<Longrightarrow> fold float_min xs x = NaN"
proof (induction xs arbitrary: x)
  case Nil
  then show ?case by simp
next
  case (Cons y ys)
  show ?case
  proof (cases "float_min y x")
    case NaN
    then show ?thesis by (simp add: fold_float_min_NaN_acc)
  next
    case (Num m)
    then obtain a b where "y = Num a" "x = Num b" by (cases y; cases x) simp_all
    then have "NaN \<in> set (Num m # ys)" using Cons.prems by simp
    from Cons.IH [OF this] show ?thesis using Num by simp
  qed
qed

lemma fold_float_max_NaN: "NaN \<in> set (x # xs) \<Longrightarrow> fold float_max xs x = NaN"
proof (induction xs arbitrary: x)
  case Nil
  then show ?case by simp
next
  case (Cons y ys)
  show ?case
  proof (cases "float_max y x")
    case NaN
    then show ?thesis by (simp add: fold_float_max_NaN_acc)
  next
    case (Num m)
    then obtain a b where "y = Num a" "x = Num b" by (cases y; cases x) simp_all
    then have "NaN \<in> set (Num m # ys)" using Cons.prems by simp
    from Cons.IH [OF this] show ?thesis using Num by simp
  qed
qed

lemma fold_float_min_Num:
  "NaN \<notin> set (x # xs) \<Longrightarrow>
     \<exists>m. fold float_min xs x = Num m \<and> (\<forall>c. m < c \<longleftrightarrow> (\<exists>r. Num r \<in> set (x # xs) \<and> r < c))"
proof (induction xs arbitrary: x)
  case Nil
  then obtain a where "x = Num a" by (cases x) simp_all
  then show ?case by simp
next
  case (Cons y ys)
  from Cons.prems obtain a b where xy: "x = Num a" "y = Num b" by (cases x; cases y) simp_all
  have "NaN \<notin> set (Num (min b a) # ys)" using Cons.prems by simp
  from Cons.IH [OF this] obtain m
    where m: "fold float_min ys (Num (min b a)) = Num m"
      and c: "\<forall>c. m < c \<longleftrightarrow> (\<exists>r. Num r \<in> set (Num (min b a) # ys) \<and> r < c)"
    by blast
  have "m < c \<longleftrightarrow> (\<exists>r. Num r \<in> set (x # y # ys) \<and> r < c)" for c
  proof -
    have "m < c \<longleftrightarrow> min b a < c \<or> (\<exists>r. Num r \<in> set ys \<and> r < c)"
      using c by auto
    also have "\<dots> \<longleftrightarrow> a < c \<or> b < c \<or> (\<exists>r. Num r \<in> set ys \<and> r < c)"
      by (auto simp: min_less_iff_disj)
    also have "\<dots> \<longleftrightarrow> (\<exists>r. Num r \<in> set (x # y # ys) \<and> r < c)"
      using xy by auto
    finally show ?thesis .
  qed
  then show ?case using m xy by simp
qed

lemma fold_float_max_Num:
  "NaN \<notin> set (x # xs) \<Longrightarrow>
     \<exists>m. fold float_max xs x = Num m \<and> (\<forall>c. c < m \<longleftrightarrow> (\<exists>r. Num r \<in> set (x # xs) \<and> c < r))"
proof (induction xs arbitrary: x)
  case Nil
  then obtain a where "x = Num a" by (cases x) simp_all
  then show ?case by simp
next
  case (Cons y ys)
  from Cons.prems obtain a b where xy: "x = Num a" "y = Num b" by (cases x; cases y) simp_all
  have "NaN \<notin> set (Num (max b a) # ys)" using Cons.prems by simp
  from Cons.IH [OF this] obtain m
    where m: "fold float_max ys (Num (max b a)) = Num m"
      and c: "\<forall>c. c < m \<longleftrightarrow> (\<exists>r. Num r \<in> set (Num (max b a) # ys) \<and> c < r)"
    by blast
  have "c < m \<longleftrightarrow> (\<exists>r. Num r \<in> set (x # y # ys) \<and> c < r)" for c
  proof -
    have "c < m \<longleftrightarrow> c < max b a \<or> (\<exists>r. Num r \<in> set ys \<and> c < r)"
      using c by auto
    also have "\<dots> \<longleftrightarrow> c < a \<or> c < b \<or> (\<exists>r. Num r \<in> set ys \<and> c < r)"
      by (auto simp: less_max_iff_disj)
    also have "\<dots> \<longleftrightarrow> (\<exists>r. Num r \<in> set (x # y # ys) \<and> c < r)"
      using xy by auto
    finally show ?thesis .
  qed
  then show ?case using m xy by simp
qed

lemma list_all_num_within:
  "list_all (num_within lo hi) xs \<longleftrightarrow>
     NaN \<notin> set xs \<and> (\<forall>r. Num r \<in> set xs \<longrightarrow> lo \<le> r \<and> r \<le> hi)"
proof (induction xs)
  case Nil
  show ?case by simp
next
  case (Cons x xs)
  then show ?case by (cases x) auto
qed



lemma check_unit_range_None:
  "check_unit_range idx nm a = None \<longleftrightarrow> range_check_passes a"
proof (cases "data a")
  case Nil
  then show ?thesis by (simp add: check_unit_range_def range_check_passes_def)
next
  case (Cons y ys)
  show ?thesis
  proof (cases "NaN \<in> set (data a)")
    case True
    then have "fold float_min ys y = NaN" "fold float_max ys y = NaN"
      using Cons fold_float_min_NaN [of y ys] fold_float_max_NaN [of y ys] by simp_all
    then have "check_unit_range idx nm a = None"
      using Cons by (simp add: check_unit_range_def)
    then show ?thesis using True Cons by (simp add: range_check_passes_def)
  next
    case False
    then have nn: "NaN \<notin> set (y # ys)" using Cons by simp
    from fold_float_min_Num [OF nn] obtain lo
      where lo: "fold float_min ys y = Num lo"
        and loc: "\<forall>c. lo < c \<longleftrightarrow> (\<exists>r. Num r \<in> set (y # ys) \<and> r < c)"
      by blast
    from fold_float_max_Num [OF nn] obtain hi
      where hi: "fold float_max ys y = Num hi"
        and hic: "\<forall>c. c < hi \<longleftrightarrow> (\<exists>r. Num r \<in> set (y # ys) \<and> c < r)"
      by blast
    have "check_unit_range idx nm a = None \<longleftrightarrow> \<not> lo < 0 \<and> \<not> 1 < hi"
      using Cons lo hi by (simp add: check_unit_range_def)
    also have "\<dots> \<longleftrightarrow> (\<forall>r. Num r \<in> set (y # ys) \<longrightarrow> 0 \<le> r \<and> r \<le> 1)"
      using loc hic by (auto simp: not_less)
    also have "\<dots> \<longleftrightarrow> list_all (num_within 0 1) (y # ys)"
      using nn by (simp only: list_all_num_within) simp
    finally show ?thesis using False Cons by (simp add: range_check_passes_def)
  qed
qed

lemma in_unit_range_passes: "in_unit_range a \<Longrightarrow> range_check_passes a"
  by (simp add: in_unit_range_def range_check_passes_def)


lemma check_values_None:
  "check_values idx ps = None \<longleftrightarrow>
     (\<forall>(ao, n) \<in> set ps. \<forall>a. ao = Some a \<longrightarrow> range_check_passes a)"
proof (induction idx ps rule: check_values.induct)
  case (1 image_indices)
  show ?case by simp
next
  case (2 image_indices nm rest)
  then show ?case by simp
next
  case (3 image_indices arr nm rest)
  show ?case
  proof (cases "check_unit_range image_indices nm arr")
    case None
    then show ?thesis using 3 check_unit_range_None [of image_indices nm arr] by simp
  next
    case (Some e)
    then show ?thesis using check_unit_range_None [of image_indices nm arr] by simp
  qed
qed


lemma check_values_Some_not:
  "check_values idx ps = Some e \<Longrightarrow>
     \<not> (\<forall>(ao, n) \<in> set ps. \<forall>a. ao = Some a \<longrightarrow> range_check_passes a)"
  using check_values_None [of idx ps] by simp


lemma validate_passes_iff:
  "snd (validate_images_and_labels mi fi ml fl idx) = None \<longleftrightarrow>
     (\<exists>a b. mi = Some a \<and> fi = Some b \<and> range_check_passes a \<and> range_check_passes b
        \<and> length (shape a) = 3 \<and> length (shape b) = 3) \<and>
     ((ml = None \<and> fl = None) \<or>
      (\<exists>c d. ml = Some c \<and> fl = Some d \<and> range_check_passes c \<and> range_check_passes d
         \<and> length (shape c) \<in> {3, 4} \<and> length (shape d) \<in> {3, 4}
         \<and> num_labels_of c = num_labels_of d))"
proof (cases mi)
  case None
  then show ?thesis by (simp add: validate_images_and_labels_def)
next
  case mi: (Some a)
  show ?thesis
  proof (cases fi)
    case None
    then show ?thesis using mi by (simp add: validate_images_and_labels_def)
  next
    case fi: (Some b)
    show ?thesis
    proof (cases ml)
      case None
      show ?thesis
      proof (cases fl)
        case fl: None
        show ?thesis
        proof (cases "check_values idx [(mi, ''moving_image''), (fi, ''fixed_image''),
              (ml, ''moving_label''), (fl, ''fixed_label'')]")
          case cv: None
          from cv have "range_check_passes a \<and> range_check_passes b"
            unfolding check_values_None using mi fi by simp
          then show ?thesis using mi fi None fl cv
            by (simp add: validate_images_and_labels_def del: check_values.simps)
        next
          case cv: (Some e)
          from check_values_Some_not [OF cv]
          have "\<not> (range_check_passes a \<and> range_check_passes b)"
            using mi fi None fl by simp
          then show ?thesis using mi fi None fl cv
            by (auto simp add: validate_images_and_labels_def simp del: check_values.simps)
        qed
      next
        case (Some d)
        then show ?thesis using mi fi None by (simp add: validate_images_and_labels_def)
      qed
    next
      case ml: (Some c)
      show ?thesis
      proof (cases fl)
        case None
        then show ?thesis using mi fi ml by (simp add: validate_images_and_labels_def)
      next
        case fl: (Some d)
        show ?thesis
        proof (cases "check_values idx [(mi, ''moving_image''), (fi, ''fixed_image''),
              (ml, ''moving_label''), (fl, ''fixed_label'')]")
          case cv: None
          from cv have "range_check_passes a \<and> range_check_passes b
                          \<and> range_check_passes c \<and> range_check_passes d"
            unfolding check_values_None using mi fi ml fl by simp
          then show ?thesis using mi fi ml fl cv
            by (simp add: validate_images_and_labels_def Let_def del: check_values.simps)
        next
          case cv: (Some e)
          from check_values_Some_not [OF cv]
          have "\<not> (range_check_passes a \<and> range_check_passes b
                      \<and> range_check_passes c \<and> range_check_passes d)"
            using mi fi ml fl by simp
          then show ?thesis using mi fi ml fl cv
            by (auto simp add: validate_images_and_labels_def simp del: check_values.simps)
        qed
      qed
    qed
  qed
qed


lemmas validate_eval =
  validate_images_and_labels_def check_unit_range_def num_labels_of_def Let_def




section \<open>Properties of the label sampling\<close>

lemma index_last_ok:
  "shape a \<noteq> [] \<Longrightarrow> c < last (shape a) \<Longrightarrow>
   index_last a (int c) =
     Inr \<lparr>shape = butlast (shape a),
          data = map (\<lambda>k. data a ! (k * last (shape a) + c))
                     [0 ..< prod_list (butlast (shape a))]\<rparr>"
  by (simp add: index_last_def Let_def)

lemma yield_labels_all:
  assumes "\<forall>c \<in> set cs. \<not> isl (index_last ml c) \<and> \<not> isl (index_last fl c)"
  shows "yield_labels mi fi ml fl idx cs =
           (map (\<lambda>c. [(''moving_image'', mi), (''fixed_image'', fi),
                       (''indices'', asarray (idx @ [c])),
                       (''moving_label'', projr (index_last ml c)),
                       (''fixed_label'', projr (index_last fl c))]) cs, None)"
  using assms
proof (induction cs)
  case Nil
  show ?case by simp
next
  case (Cons c cs)
  from Cons.prems obtain ms fs
    where ms: "index_last ml c = Inr ms" and fs: "index_last fl c = Inr fs"
    by (cases "index_last ml c"; cases "index_last fl c") auto
  from Cons have ih: "yield_labels mi fi ml fl idx cs =
           (map (\<lambda>c. [(''moving_image'', mi), (''fixed_image'', fi),
                       (''indices'', asarray (idx @ [c])),
                       (''moving_label'', projr (index_last ml c)),
                       (''fixed_label'', projr (index_last fl c))]) cs, None)"
    by simp
  show ?case by (simp add: ms fs ih Let_def)
qed

lemma wf_nonempty_last_pos:
  assumes "wf_ndarray b" "data b \<noteq> []" "shape b \<noteq> []"
  shows "0 < last (shape b)"
proof -
  have "prod_list (shape b) = length (data b)" using assms(1) by (simp add: wf_ndarray_def)
  then have "prod_list (shape b) \<noteq> 0" using assms(2) by simp
  then have "0 \<notin> set (shape b)" by (simp add: prod_list_zero_iff)
  moreover have "last (shape b) \<in> set (shape b)" using assms(3) by simp
  ultimately show ?thesis by (metis neq0_conv)
qed

lemma validate_passes_obtain:
  assumes "snd (validate_images_and_labels mi fi ml fl idx) = None"
  obtains ws where "validate_images_and_labels mi fi ml fl idx = (ws, None)"
  using assms by (cases "validate_images_and_labels mi fi ml fl idx") auto

text \<open>
  C1. For a 4-dimensional moving label with \<open>N = shape ml ! 3\<close> channels and the
  policy "all", on input that passes the validation (labels well formed),
  \<open>sample_image_label\<close> yields exactly \<open>N\<close> samples and does not raise: the
  \<open>c\<close>-th sample, for \<open>c = 0, \<dots>, N - 1\<close> in this order, has the indices
  \<open>image_indices + [c]\<close> and the labels \<open>moving_label[..., c]\<close> and
  \<open>fixed_label[..., c]\<close>, both of which exist; and \<open>N \<ge> 1\<close>.
\<close>

theorem sample_image_label_all_channels:
  assumes ok: "snd (validate_images_and_labels (Some mi) (Some fi) (Some ml) (Some fl) idx) = None"
    and four: "length (shape ml) = 4"
    and wf: "wf_ndarray ml" "wf_ndarray fl"
  shows "snd (sample_image_label All r (Some mi) (Some fi) (Some ml) (Some fl) idx) =
           (map (\<lambda>c. [(''moving_image'', mi), (''fixed_image'', fi),
                       (''indices'', asarray (idx @ [int c])),
                       (''moving_label'', projr (index_last ml (int c))),
                       (''fixed_label'', projr (index_last fl (int c)))])
                [0 ..< shape ml ! 3], None)
         \<and> length (fst (snd (sample_image_label All r
                                 (Some mi) (Some fi) (Some ml) (Some fl) idx))) = shape ml ! 3
         \<and> (\<forall>c < shape ml ! 3.
               \<not> isl (index_last ml (int c)) \<and> \<not> isl (index_last fl (int c)))
         \<and> 1 \<le> shape ml ! 3"
proof -
  let ?N = "shape ml ! 3"
  have ne: "shape ml \<noteq> []" using four by auto
  have lastml: "last (shape ml) = ?N" using four ne by (simp add: last_conv_nth)
  from ok have v: "range_check_passes ml" "range_check_passes fl"
      "length (shape fl) \<in> {3, 4}"
      "num_labels_of ml = num_labels_of fl"
    by (simp_all add: validate_passes_iff)
  have nm: "num_labels_of ml = ?N" using four lastml by (simp add: num_labels_of_def)
  have nef: "shape fl \<noteq> []" using v(3) by auto
  have posf: "0 < last (shape fl)"
    using wf_nonempty_last_pos [OF wf(2) _ nef] v(2) by (simp add: range_check_passes_def)
  have posm: "0 < ?N"
    using wf_nonempty_last_pos [OF wf(1) _ ne] v(1) lastml
    by (simp add: range_check_passes_def)
  have le: "c < ?N \<Longrightarrow> c < last (shape fl)" for c
    using v(4) nm posf by (auto simp: num_labels_of_def split: if_splits)
  have slices: "\<not> isl (index_last ml (int c)) \<and> \<not> isl (index_last fl (int c))"
    if "c < ?N" for c
    using index_last_ok [OF ne, of c] index_last_ok [OF nef, of c] le that lastml by simp
  have "yield_labels mi fi ml fl idx (map int [0 ..< ?N]) =
          (map (\<lambda>c. [(''moving_image'', mi), (''fixed_image'', fi),
                       (''indices'', asarray (idx @ [c])),
                       (''moving_label'', projr (index_last ml c)),
                       (''fixed_label'', projr (index_last fl c))]) (map int [0 ..< ?N]), None)"
    by (rule yield_labels_all) (use slices in auto)
  moreover obtain ws
    where "validate_images_and_labels (Some mi) (Some fi) (Some ml) (Some fl) idx = (ws, None)"
    using ok by (rule validate_passes_obtain)
  ultimately have eq: "snd (sample_image_label All r (Some mi) (Some fi) (Some ml) (Some fl) idx) =
           (map (\<lambda>c. [(''moving_image'', mi), (''fixed_image'', fi),
                       (''indices'', asarray (idx @ [int c])),
                       (''moving_label'', projr (index_last ml (int c))),
                       (''fixed_label'', projr (index_last fl (int c)))])
                [0 ..< ?N], None)"
    using four by (simp add: sample_image_label_def get_label_indices_def comp_def)
  then have "length (fst (snd (sample_image_label All r
                                 (Some mi) (Some fi) (Some ml) (Some fl) idx))) = ?N"
    by simp
  with eq slices posm show ?thesis by simp
qed

text \<open>Witness: a label volume with two channels gives two samples, channel 0 then 1.\<close>

theorem sample_image_label_all_channels_witness:
  "snd (sample_image_label All 0
         (Some \<lparr>shape = [1, 1, 1], data = [Num (1 / 2)]\<rparr>) (Some \<lparr>shape = [1, 1, 1], data = [Num (1 / 4)]\<rparr>)
         (Some \<lparr>shape = [1, 1, 1, 2], data = [Num 0, Num 1]\<rparr>)
         (Some \<lparr>shape = [1, 1, 1, 2], data = [Num 1, Num 0]\<rparr>)
         [7]) =
     ([[(''moving_image'', \<lparr>shape = [1, 1, 1], data = [Num (1 / 2)]\<rparr>),
        (''fixed_image'', \<lparr>shape = [1, 1, 1], data = [Num (1 / 4)]\<rparr>),
        (''indices'', \<lparr>shape = [2], data = [Num 7, Num 0]\<rparr>),
        (''moving_label'', \<lparr>shape = [1, 1, 1], data = [Num 0]\<rparr>),
        (''fixed_label'', \<lparr>shape = [1, 1, 1], data = [Num 1]\<rparr>)],
       [(''moving_image'', \<lparr>shape = [1, 1, 1], data = [Num (1 / 2)]\<rparr>),
        (''fixed_image'', \<lparr>shape = [1, 1, 1], data = [Num (1 / 4)]\<rparr>),
        (''indices'', \<lparr>shape = [2], data = [Num 7, Num 1]\<rparr>),
        (''moving_label'', \<lparr>shape = [1, 1, 1], data = [Num 1]\<rparr>),
        (''fixed_label'', \<lparr>shape = [1, 1, 1], data = [Num 0]\<rparr>)]], None)"
  using sample_image_label_all_channels
          [of "\<lparr>shape = [1, 1, 1], data = [Num (1 / 2)]\<rparr>" "\<lparr>shape = [1, 1, 1], data = [Num (1 / 4)]\<rparr>"
              "\<lparr>shape = [1, 1, 1, 2], data = [Num 0, Num 1]\<rparr>" "\<lparr>shape = [1, 1, 1, 2], data = [Num 1, Num 0]\<rparr>"
              "[7]" 0]
  by (simp add: validate_eval wf_ndarray_def index_last_def asarray_def upt_rec)

text \<open>
  C3. On input that passes the validation, \<open>sample_image_label\<close> yields exactly one
  sample and does not raise in the two cases without several channels. Without labels
  the sample has the entries \<open>moving_image\<close>, \<open>fixed_image\<close> and \<open>indices\<close>
  only, and the indices are \<open>image_indices + [-1]\<close>. With a 3-dimensional moving label
  the sample carries both labels as they were given and the indices are
  \<open>image_indices + [0]\<close>.
\<close>

theorem sample_image_label_single:
  assumes ok: "snd (validate_images_and_labels (Some mi) (Some fi) mlo flo idx) = None"
  shows "(mlo = None \<longrightarrow>
            snd (sample_image_label policy r (Some mi) (Some fi) mlo flo idx) =
              ([[(''moving_image'', mi), (''fixed_image'', fi),
                 (''indices'', asarray (idx @ [- 1]))]], None))
       \<and> (\<forall>ml fl. mlo = Some ml \<and> flo = Some fl \<and> length (shape ml) = 3 \<longrightarrow>
            snd (sample_image_label policy r (Some mi) (Some fi) mlo flo idx) =
              ([[(''moving_image'', mi), (''fixed_image'', fi),
                 (''moving_label'', ml), (''fixed_label'', fl),
                 (''indices'', asarray (idx @ [0]))]], None))"
proof -
  obtain ws where "validate_images_and_labels (Some mi) (Some fi) mlo flo idx = (ws, None)"
    using ok by (rule validate_passes_obtain)
  then show ?thesis by (auto simp: sample_image_label_def)
qed

text \<open>Witness: an unlabeled pair, and a pair with 3-dimensional labels.\<close>

theorem sample_image_label_single_witness:
  "snd (sample_image_label Sample 5
         (Some \<lparr>shape = [1, 1, 1], data = [Num (1 / 2)]\<rparr>) (Some \<lparr>shape = [1, 1, 1], data = [Num (1 / 4)]\<rparr>)
         None None [3, 4]) =
     ([[(''moving_image'', \<lparr>shape = [1, 1, 1], data = [Num (1 / 2)]\<rparr>),
        (''fixed_image'', \<lparr>shape = [1, 1, 1], data = [Num (1 / 4)]\<rparr>),
        (''indices'', \<lparr>shape = [3], data = [Num 3, Num 4, Num (- 1)]\<rparr>)]], None)
   \<and> snd (sample_image_label Sample 5
         (Some \<lparr>shape = [1, 1, 1], data = [Num (1 / 2)]\<rparr>) (Some \<lparr>shape = [1, 1, 1], data = [Num (1 / 4)]\<rparr>)
         (Some \<lparr>shape = [1, 1, 1], data = [Num 1]\<rparr>) (Some \<lparr>shape = [1, 1, 1], data = [Num 0]\<rparr>)
         [3, 4]) =
     ([[(''moving_image'', \<lparr>shape = [1, 1, 1], data = [Num (1 / 2)]\<rparr>),
        (''fixed_image'', \<lparr>shape = [1, 1, 1], data = [Num (1 / 4)]\<rparr>),
        (''moving_label'', \<lparr>shape = [1, 1, 1], data = [Num 1]\<rparr>),
        (''fixed_label'', \<lparr>shape = [1, 1, 1], data = [Num 0]\<rparr>),
        (''indices'', \<lparr>shape = [3], data = [Num 3, Num 4, Num 0]\<rparr>)]], None)"
  using sample_image_label_single
          [of "\<lparr>shape = [1, 1, 1], data = [Num (1 / 2)]\<rparr>" "\<lparr>shape = [1, 1, 1], data = [Num (1 / 4)]\<rparr>"
              None None "[3, 4]" Sample 5]
        sample_image_label_single
          [of "\<lparr>shape = [1, 1, 1], data = [Num (1 / 2)]\<rparr>" "\<lparr>shape = [1, 1, 1], data = [Num (1 / 4)]\<rparr>"
              "Some \<lparr>shape = [1, 1, 1], data = [Num 1]\<rparr>" "Some \<lparr>shape = [1, 1, 1], data = [Num 0]\<rparr>"
              "[3, 4]" Sample 5]
  by (simp add: validate_eval asarray_def)

text \<open>
  C10. A moving label of shape \<open>(a, b, c, 1)\<close> together with a fixed label of shape
  \<open>(d, e, f)\<close> passes the validation whenever the images do and all values are within
  range: both channel counts are 1. \<open>sample_image_label\<close> (policy "all" or "sample")
  then takes the multi-channel branch and yields one sample, whose fixed label is
  \<open>fixed_label[..., 0]\<close>: the 2-dimensional array of shape \<open>(d, e)\<close> that holds every
  \<open>f\<close>-th value of the fixed label, not the label volume.
\<close>

theorem single_channel_4d_with_3d_fixed_label:
  assumes shapes: "shape ml = [a, b, c, 1]" "shape fl = [d, e, f]"
    and images: "in_unit_range mi" "in_unit_range fi"
                "length (shape mi) = 3" "length (shape fi) = 3"
    and labels: "in_unit_range ml" "in_unit_range fl" "wf_ndarray fl"
    and policy: "policy = All \<or> policy = Sample"
  shows "snd (validate_images_and_labels (Some mi) (Some fi) (Some ml) (Some fl) idx) = None
       \<and> num_labels_of ml = 1 \<and> num_labels_of fl = 1
       \<and> snd (sample_image_label policy r (Some mi) (Some fi) (Some ml) (Some fl) idx) =
           ([[(''moving_image'', mi), (''fixed_image'', fi),
              (''indices'', asarray (idx @ [0])),
              (''moving_label'',
                 \<lparr>shape = [a, b, c], data = map (\<lambda>k. data ml ! k) [0 ..< a * b * c]\<rparr>),
              (''fixed_label'',
                 \<lparr>shape = [d, e], data = map (\<lambda>k. data fl ! (k * f)) [0 ..< d * e]\<rparr>)]],
            None)
       \<and> index_last fl 0 =
           Inr \<lparr>shape = [d, e], data = map (\<lambda>k. data fl ! (k * f)) [0 ..< d * e]\<rparr>"
proof -
  have n1: "num_labels_of ml = 1" "num_labels_of fl = 1"
    using shapes by (simp_all add: num_labels_of_def)
  have ok: "snd (validate_images_and_labels (Some mi) (Some fi) (Some ml) (Some fl) idx) = None"
    using shapes images labels n1 by (simp add: validate_passes_iff in_unit_range_passes)
  have "0 < last (shape fl)"
    using wf_nonempty_last_pos [OF labels(3)] labels(2) shapes(2)
    by (simp add: in_unit_range_def)
  then have f: "0 < f" using shapes(2) by simp
  have fslice: "index_last fl 0 =
           Inr \<lparr>shape = [d, e], data = map (\<lambda>k. data fl ! (k * f)) [0 ..< d * e]\<rparr>"
    using shapes(2) f by (simp add: index_last_def)
  have mslice: "index_last ml 0 =
           Inr \<lparr>shape = [a, b, c], data = map (\<lambda>k. data ml ! k) [0 ..< a * b * c]\<rparr>"
    using shapes(1) by (simp add: index_last_def mult.assoc)
  have gl: "get_label_indices (shape ml ! 3) policy r = [0]"
    using policy shapes(1) by (auto simp: get_label_indices_def)
  obtain ws
    where "validate_images_and_labels (Some mi) (Some fi) (Some ml) (Some fl) idx = (ws, None)"
    using ok by (rule validate_passes_obtain)
  then have "snd (sample_image_label policy r (Some mi) (Some fi) (Some ml) (Some fl) idx) =
           ([[(''moving_image'', mi), (''fixed_image'', fi),
              (''indices'', asarray (idx @ [0])),
              (''moving_label'',
                 \<lparr>shape = [a, b, c], data = map (\<lambda>k. data ml ! k) [0 ..< a * b * c]\<rparr>),
              (''fixed_label'',
                 \<lparr>shape = [d, e], data = map (\<lambda>k. data fl ! (k * f)) [0 ..< d * e]\<rparr>)]],
            None)"
    using shapes(1) gl fslice mslice by (simp add: sample_image_label_def)
  with ok n1 fslice show ?thesis by simp
qed

text \<open>
  Witness: the fixed label of shape (1, 2, 2) with the values 1, 0, 1, 1 comes out as the
  array of shape (1, 2) with the values 1, 1.
\<close>

theorem single_channel_4d_with_3d_fixed_label_witness:
  "snd (sample_image_label All 0
         (Some \<lparr>shape = [1, 1, 1], data = [Num (1 / 2)]\<rparr>) (Some \<lparr>shape = [1, 1, 1], data = [Num (1 / 4)]\<rparr>)
         (Some \<lparr>shape = [1, 1, 1, 1], data = [Num 1]\<rparr>)
         (Some \<lparr>shape = [1, 2, 2], data = [Num 1, Num 0, Num 1, Num 1]\<rparr>)
         [7]) =
     ([[(''moving_image'', \<lparr>shape = [1, 1, 1], data = [Num (1 / 2)]\<rparr>),
        (''fixed_image'', \<lparr>shape = [1, 1, 1], data = [Num (1 / 4)]\<rparr>),
        (''indices'', \<lparr>shape = [2], data = [Num 7, Num 0]\<rparr>),
        (''moving_label'', \<lparr>shape = [1, 1, 1], data = [Num 1]\<rparr>),
        (''fixed_label'', \<lparr>shape = [1, 2], data = [Num 1, Num 1]\<rparr>)]], None)"
  using single_channel_4d_with_3d_fixed_label
          [of "\<lparr>shape = [1, 1, 1, 1], data = [Num 1]\<rparr>" 1 1 1
              "\<lparr>shape = [1, 2, 2], data = [Num 1, Num 0, Num 1, Num 1]\<rparr>" 1 2 2
              "\<lparr>shape = [1, 1, 1], data = [Num (1 / 2)]\<rparr>" "\<lparr>shape = [1, 1, 1], data = [Num (1 / 4)]\<rparr>"
              All "[7]" 0]
  by (simp add: in_unit_range_def wf_ndarray_def asarray_def upt_rec)

section \<open>Properties of the loader classes\<close>

lemma collect_all_Inr: "collect (map Inr vs) = Inr vs"
  by (induction vs) simp_all

lemma py_sum_all_Some: "py_sum acc (map Some ns) = Inr (acc + sum_list ns)"
  by (induction ns arbitrary: acc) simp_all

text \<open>
  C7. Constructing a \<open>ConcatenatedDataLoader\<close> from the empty list fails (the
  assertion). From a non-empty list of children whose \<open>num_samples\<close> are the integers
  \<open>ns\<close>, construction succeeds and \<open>num_samples\<close> of the result is their sum.
\<close>

theorem concatenated_num_samples:
  "ConcatenatedDataLoader_init [] = Inl AssertionError
   \<and> (children \<noteq> [] \<and> map num_samples children = map (\<lambda>n. Inr (Some n)) ns \<longrightarrow>
        (\<exists>L. ConcatenatedDataLoader_init children = Inr L
            \<and> num_samples L = Inr (Some (sum_list ns))))"
proof (intro conjI impI)
  show "ConcatenatedDataLoader_init [] = Inl AssertionError"
    by (simp add: ConcatenatedDataLoader_init_def)
next
  assume a: "children \<noteq> [] \<and> map num_samples children = map (\<lambda>n. Inr (Some n)) ns"
  let ?L = "Concatenated
              \<lparr>labeled = None, num_indices = None, sample_label = None, seed = None\<rparr> children"
  have init: "ConcatenatedDataLoader_init children = Inr ?L"
    using a by (simp add: ConcatenatedDataLoader_init_def)
  have "map num_samples children = map Inr (map Some ns)" using a by simp
  then have "num_samples ?L = Inr (Some (sum_list ns))"
    by (simp add: collect_all_Inr py_sum_all_Some del: map_map)
  with init show "\<exists>L. ConcatenatedDataLoader_init children = Inr L
                     \<and> num_samples L = Inr (Some (sum_list ns))"
    by blast
qed

text \<open>Witness: children with 10, 5 and 3 samples give 18.\<close>

theorem concatenated_num_samples_witness:
  "\<exists>L. ConcatenatedDataLoader_init
          [Paired \<lparr>labeled = Some True, num_indices = Some 2, sample_label = Some All,
                   seed = None, paired_moving_image_shape = [4, 4, 4],
                   paired_fixed_image_shape = [4, 4, 4], num_images = Some 10\<rparr>,
           Paired \<lparr>labeled = Some True, num_indices = Some 2, sample_label = Some All,
                   seed = None, paired_moving_image_shape = [4, 4, 4],
                   paired_fixed_image_shape = [4, 4, 4], num_images = Some 5\<rparr>,
           Unpaired \<lparr>labeled = Some True, num_indices = Some 3, sample_label = Some All,
                     seed = None, image_shape = [4, 4, 4],
                     unpaired_num_samples = Some 3\<rparr>] = Inr L
      \<and> num_samples L = Inr (Some 18)"
  using concatenated_num_samples
          [of "[Paired \<lparr>labeled = Some True, num_indices = Some 2, sample_label = Some All,
                   seed = None, paired_moving_image_shape = [4, 4, 4],
                   paired_fixed_image_shape = [4, 4, 4], num_images = Some 10\<rparr>,
           Paired \<lparr>labeled = Some True, num_indices = Some 2, sample_label = Some All,
                   seed = None, paired_moving_image_shape = [4, 4, 4],
                   paired_fixed_image_shape = [4, 4, 4], num_images = Some 5\<rparr>,
           Unpaired \<lparr>labeled = Some True, num_indices = Some 3, sample_label = Some All,
                     seed = None, image_shape = [4, 4, 4],
                     unpaired_num_samples = Some 3\<rparr>]" "[10, 5, 3]"]
  by simp

text \<open>
  C9. The paired constructor raises exactly when one of the two shapes is not of length 3,
  the unpaired one exactly when its shape is not. A constructed unpaired loader returns
  the configured \<open>image_shape\<close>, of length 3, as both \<open>moving_image_shape\<close> and
  \<open>fixed_image_shape\<close>; a constructed paired loader returns the two configured shapes.
  Neither \<open>close\<close> nor setting the number of samples changes what they return.
\<close>

theorem loader_shapes:
  "((\<exists>e. AbstractPairedDataLoader_init ms fs lab pol sd = Inl e)
      = (length ms \<noteq> 3 \<or> length fs \<noteq> 3))
   \<and> ((\<exists>e. AbstractUnpairedDataLoader_init s lab pol sd = Inl e) = (length s \<noteq> 3))
   \<and> (\<forall>U. AbstractUnpairedDataLoader_init s lab pol sd = Inr U \<longrightarrow>
         length s = 3
         \<and> moving_image_shape (Unpaired U) = Inr s
         \<and> fixed_image_shape (Unpaired U) = Inr s
         \<and> moving_image_shape (close (Unpaired U)) = Inr s
         \<and> fixed_image_shape (close (Unpaired U)) = Inr s
         \<and> (\<forall>n. moving_image_shape (Unpaired (U\<lparr>unpaired_num_samples := n\<rparr>)) = Inr s
                \<and> fixed_image_shape (Unpaired (U\<lparr>unpaired_num_samples := n\<rparr>)) = Inr s))
   \<and> (\<forall>P. AbstractPairedDataLoader_init ms fs lab pol sd = Inr P \<longrightarrow>
         length ms = 3 \<and> length fs = 3
         \<and> moving_image_shape (Paired P) = Inr ms
         \<and> fixed_image_shape (Paired P) = Inr fs
         \<and> moving_image_shape (close (Paired P)) = Inr ms
         \<and> fixed_image_shape (close (Paired P)) = Inr fs
         \<and> (\<forall>n. moving_image_shape (Paired (P\<lparr>num_images := n\<rparr>)) = Inr ms
                \<and> fixed_image_shape (Paired (P\<lparr>num_images := n\<rparr>)) = Inr fs))"
  by (auto simp: AbstractPairedDataLoader_init_def AbstractUnpairedDataLoader_init_def)

text \<open>
  Witness: an unpaired loader of shape (8, 8, 4), a paired loader of shapes (8, 8, 4) and
  (16, 16, 8), and a shape of length 2 that is refused.
\<close>

theorem loader_shapes_witness:
  "(\<exists>U. AbstractUnpairedDataLoader_init [8, 8, 4] (Some True) (Some All) None = Inr U
        \<and> moving_image_shape (Unpaired U) = Inr [8, 8, 4]
        \<and> fixed_image_shape (Unpaired U) = Inr [8, 8, 4])
   \<and> (\<exists>P. AbstractPairedDataLoader_init [8, 8, 4] [16, 16, 8] (Some True) (Some All) None = Inr P
        \<and> moving_image_shape (Paired P) = Inr [8, 8, 4]
        \<and> fixed_image_shape (Paired P) = Inr [16, 16, 8])
   \<and> (\<exists>e. AbstractPairedDataLoader_init [8, 8] [16, 16, 8] (Some True) (Some All) None = Inl e)"
  using loader_shapes [of "[8, 8, 4]" "[16, 16, 8]" "Some True" "Some All" None "[8, 8, 4]"]
        loader_shapes [of "[8, 8]" "[16, 16, 8]" "Some True" "Some All" None "[8, 8, 4]"]
  by (simp add: AbstractPairedDataLoader_init_def AbstractUnpairedDataLoader_init_def)

section \<open>Properties of the group structure\<close>

lemma group_lengths_total:
  "set gs \<subseteq> dom m \<Longrightarrow> group_lengths (Some m) gs = Inr (map (\<lambda>g. length (the (m g))) gs)"
  by (induction gs) auto

lemma empty_groups_total:
  "set gs \<subseteq> dom m \<Longrightarrow> empty_groups m gs = Inr (filter (\<lambda>g. m g = Some []) gs)"
  by (induction gs) auto

lemma group_lengths_Some_Inr:
  "group_lengths (Some m) gs = Inr ns \<Longrightarrow>
          set gs \<subseteq> dom m \<and> ns = map (\<lambda>g. length (the (m g))) gs"
proof (induction gs arbitrary: ns)
  case Nil
  then show ?case by simp
next
  case (Cons g gs)
  from Cons.prems obtain samples where s: "m g = Some samples"
    by (cases "m g") simp_all
  from Cons.prems s obtain ns' where n: "group_lengths (Some m) gs = Inr ns'"
    by (cases "group_lengths (Some m) gs") simp_all
  from Cons.prems s n have ns: "ns = length samples # ns'" by simp
  from Cons.IH [OF n] show ?case using s ns by (simp add: domI)
qed

lemma py_min_Inr: "py_min ns = Inr k \<Longrightarrow> ns \<noteq> [] \<and> k = Min (set ns)"
proof (cases ns)
  case Nil
  assume "py_min ns = Inr k"
  then show ?thesis using Nil by simp
next
  case (Cons n ns')
  assume "py_min ns = Inr k"
  then have "k = fold min ns' n" using Cons by simp
  then show ?thesis unfolding Cons Min.set_eq_fold by simp
qed

lemma py_min_nonempty: "ns \<noteq> [] \<Longrightarrow> py_min ns = Inr (Min (set ns))"
proof (cases ns)
  case Nil
  assume "ns \<noteq> []"
  then show ?thesis using Nil by simp
next
  case (Cons n ns')
  show ?thesis unfolding Cons Min.set_eq_fold by simp
qed

lemma Min_zero_iff: "ns \<noteq> [] \<Longrightarrow> Min (set ns) = (0::nat) \<longleftrightarrow> 0 \<in> set ns"
proof
  assume "ns \<noteq> []" "Min (set ns) = 0"
  then show "0 \<in> set ns" using Min_in [of "set ns"] by auto
next
  assume "ns \<noteq> []" "0 \<in> set ns"
  then have "Min (set ns) \<le> 0" by (intro Min_le) simp_all
  then show "Min (set ns) = 0" by simp
qed

lemma group_lengths_Inr:
  assumes "group_lengths d gs = Inr ns" "gs \<noteq> []"
  shows "\<exists>m. d = Some m \<and> set gs \<subseteq> dom m \<and> ns = map (\<lambda>g. length (the (m g))) gs"
proof (cases d)
  case None
  then show ?thesis using assms by (cases gs) simp_all
next
  case (Some m)
  then show ?thesis using assms(1) group_lengths_Some_Inr [of m gs ns] by simp
qed

lemma get_num_images_per_group_Inr:
  assumes r: "get_num_images_per_group L = Inr ns"
  shows "grouped L \<and> (\<exists>gs k. group_ids L = Some gs
           \<and> group_lengths (group_sample_dict L) gs = Inr ns \<and> py_min ns = Inr k \<and> k \<noteq> 0)"
proof -
  have gr: "grouped L"
  proof (rule ccontr)
    assume "\<not> grouped L"
    then show False using r by (simp add: get_num_images_per_group_def)
  qed
  obtain gs where gs: "group_ids L = Some gs"
  proof (cases "group_ids L")
    case None
    then show ?thesis using r gr by (simp add: get_num_images_per_group_def)
  next
    case (Some gs)
    then show ?thesis using that by simp
  qed
  obtain ns' where gl: "group_lengths (group_sample_dict L) gs = Inr ns'"
  proof (cases "group_lengths (group_sample_dict L) gs")
    case (Inl e)
    then show ?thesis using r gr gs by (simp add: get_num_images_per_group_def)
  next
    case (Inr ns')
    then show ?thesis using that by simp
  qed
  obtain k where k: "py_min ns' = Inr k"
  proof (cases "py_min ns'")
    case (Inl e)
    then show ?thesis using r gr gs gl by (simp add: get_num_images_per_group_def)
  next
    case (Inr k)
    then show ?thesis using that by simp
  qed
  have red: "get_num_images_per_group L =
          (if k = 0
           then (case group_sample_dict L of
                  None \<Rightarrow> Inl TypeError
                | Some m \<Rightarrow>
                    (case empty_groups m gs of
                       Inl e \<Rightarrow> Inl e
                     | Inr es \<Rightarrow> Inl (ValueError (GroupsEmpty es))))
           else Inr ns')"
    using gr gs gl k by (simp add: get_num_images_per_group_def)
  have k0: "k \<noteq> 0"
  proof
    assume "k = 0"
    then have "\<exists>e. get_num_images_per_group L = Inl e"
      unfolding red by (simp split: option.splits sum.splits)
    then show False using r by simp
  qed
  then have "ns = ns'" using r red by simp
  then show ?thesis using gr gs gl k k0 by blast
qed

lemma get_num_images_per_group_cases:
  "(grouped L \<and> group_ids L = Some gs \<and> group_sample_dict L = Some m \<and> set gs \<subseteq> dom m
      \<and> (\<exists>g \<in> set gs. m g = Some []) \<longrightarrow>
        get_num_images_per_group L =
          Inl (ValueError (GroupsEmpty (filter (\<lambda>g. m g = Some []) gs))))
   \<and> (\<forall>ns. get_num_images_per_group L = Inr ns \<longrightarrow>
        grouped L
        \<and> (\<exists>gs m. group_ids L = Some gs \<and> group_sample_dict L = Some m
              \<and> ns = map (\<lambda>g. length (the (m g))) gs
              \<and> (\<forall>g \<in> set gs. \<exists>samples. m g = Some samples \<and> 1 \<le> length samples)))"
proof (rule conjI; (rule allI)?; rule impI)
  assume a: "grouped L \<and> group_ids L = Some gs \<and> group_sample_dict L = Some m
               \<and> set gs \<subseteq> dom m \<and> (\<exists>g \<in> set gs. m g = Some [])"
  let ?ns = "map (\<lambda>g. length (the (m g))) gs"
  from a have gr: "grouped L" and gs: "group_ids L = Some gs"
    and d: "group_sample_dict L = Some m" and sub: "set gs \<subseteq> dom m"
    by simp_all
  from a obtain g where g: "g \<in> set gs" "m g = Some []" by blast
  have ne: "?ns \<noteq> []" using g(1) by auto
  have "length (the (m g)) \<in> set ?ns" using g(1) by (simp del: set_map add: set_map image_iff) blast
  then have "0 \<in> set ?ns" using g(2) by simp
  then have least: "Min (set ?ns) = 0" using Min_zero_iff [OF ne] by blast
  have gl: "group_lengths (Some m) gs = Inr ?ns"
    by (rule group_lengths_total [OF sub])
  have pm: "py_min ?ns = Inr 0"
    using py_min_nonempty [OF ne] least by (simp only:)
  have eg: "empty_groups m gs = Inr (filter (\<lambda>g. m g = Some []) gs)"
    by (rule empty_groups_total [OF sub])
  show "get_num_images_per_group L =
          Inl (ValueError (GroupsEmpty (filter (\<lambda>g. m g = Some []) gs)))"
    by (simp add: get_num_images_per_group_def gr gs d gl pm eg)
next
  fix ns
  assume r: "get_num_images_per_group L = Inr ns"
  from get_num_images_per_group_Inr [OF r] obtain gs k
    where gr: "grouped L" and gs: "group_ids L = Some gs"
      and gl: "group_lengths (group_sample_dict L) gs = Inr ns"
      and k: "py_min ns = Inr k" and k0: "k \<noteq> 0"
    by blast
  from py_min_Inr [OF k] have ne: "ns \<noteq> []" and kmin: "k = Min (set ns)" by simp_all
  have gsne: "gs \<noteq> []"
  proof
    assume "gs = []"
    then have "ns = []" using gl by simp
    then show False using ne by simp
  qed
  from group_lengths_Inr [OF gl gsne] obtain m
    where m: "group_sample_dict L = Some m" "set gs \<subseteq> dom m"
             "ns = map (\<lambda>g. length (the (m g))) gs"
    by blast
  have no0: "0 \<notin> set ns" using Min_zero_iff [OF ne] kmin k0 by simp
  have all: "\<forall>g \<in> set gs. \<exists>samples. m g = Some samples \<and> 1 \<le> length samples"
  proof
    fix g assume g: "g \<in> set gs"
    then obtain samples where s: "m g = Some samples" using m(2) by blast
    have "length samples \<in> set ns" unfolding m(3) using g s by force
    then have "length samples \<noteq> 0" using no0 by metis
    then have "1 \<le> length samples" by arith
    then show "\<exists>samples. m g = Some samples \<and> 1 \<le> length samples" using s by blast
  qed
  show "grouped L
        \<and> (\<exists>gs m. group_ids L = Some gs \<and> group_sample_dict L = Some m
              \<and> ns = map (\<lambda>g. length (the (m g))) gs
              \<and> (\<forall>g \<in> set gs. \<exists>samples. m g = Some samples \<and> 1 \<le> length samples))"
    using gr gs m(1,3) all by blast
qed

lemma grouped_construction_fails:
  assumes e: "\<exists>g \<in> set (map fst groups). map_of groups g = Some []"
  shows "get_num_images_per_group (set_group_structure (FileLoader_init d n True) groups) =
          Inl (ValueError (GroupsEmpty
                 (filter (\<lambda>g. map_of groups g = Some []) (map fst groups))))"
    and "grouped_loader_init d n groups =
          Inl (ValueError (GroupsEmpty
                 (filter (\<lambda>g. map_of groups g = Some []) (map fst groups))))"
    and "grouped_run d n groups sampler =
              ([], Some (ValueError (GroupsEmpty
                     (filter (\<lambda>g. map_of groups g = Some []) (map fst groups)))))"
proof -
  let ?L = "set_group_structure (FileLoader_init d n True) groups"
  have st: "grouped ?L" "group_ids ?L = Some (map fst groups)"
           "group_sample_dict ?L = Some (map_of groups)"
    by (simp_all add: set_group_structure_def FileLoader_init_def)
  have sub: "set (map fst groups) \<subseteq> dom (map_of groups)"
    by (simp add: dom_map_of_conv_image_fst)
  show r: "get_num_images_per_group ?L =
          Inl (ValueError (GroupsEmpty
                 (filter (\<lambda>g. map_of groups g = Some []) (map fst groups))))"
    using get_num_images_per_group_cases [of ?L "map fst groups" "map_of groups"] st sub e
    by blast
  then show i: "grouped_loader_init d n groups =
          Inl (ValueError (GroupsEmpty
                 (filter (\<lambda>g. map_of groups g = Some []) (map fst groups))))"
    by (simp add: grouped_loader_init_def Let_def)
  then show "grouped_run d n groups sampler =
              ([], Some (ValueError (GroupsEmpty
                     (filter (\<lambda>g. map_of groups g = Some []) (map fst groups)))))"
    by (simp add: grouped_run_def)
qed

text \<open>
  C8. For a grouped \<open>FileLoader\<close> whose group structure has a group without samples,
  \<open>get_num_images_per_group\<close> raises the \<open>ValueError\<close> that names the empty groups,
  in the order of \<open>group_ids\<close>, and returns no list: this holds for every structure
  in which each group id has an entry in \<open>group_sample_dict\<close>, and so for every
  structure that \<open>set_group_structure\<close> builds. Whenever the function returns a list,
  that list gives the size of every group and every group has at least one sample. The
  construction of a grouped loader fails with this error, so that a run ends with the
  error and with nothing sampled, whatever the sampling is.
\<close>

theorem get_num_images_per_group_empty_group:
  "(grouped L \<and> group_ids L = Some gs \<and> group_sample_dict L = Some m \<and> set gs \<subseteq> dom m
      \<and> (\<exists>g \<in> set gs. m g = Some []) \<longrightarrow>
        get_num_images_per_group L =
          Inl (ValueError (GroupsEmpty (filter (\<lambda>g. m g = Some []) gs))))
   \<and> (\<forall>ns. get_num_images_per_group L = Inr ns \<longrightarrow>
        grouped L
        \<and> (\<exists>gs m. group_ids L = Some gs \<and> group_sample_dict L = Some m
              \<and> ns = map (\<lambda>g. length (the (m g))) gs
              \<and> (\<forall>g \<in> set gs. \<exists>samples. m g = Some samples \<and> 1 \<le> length samples)))
   \<and> ((\<exists>g \<in> set (map fst groups). map_of groups g = Some []) \<longrightarrow>
        get_num_images_per_group (set_group_structure (FileLoader_init d n True) groups) =
          Inl (ValueError (GroupsEmpty
                 (filter (\<lambda>g. map_of groups g = Some []) (map fst groups))))
        \<and> grouped_loader_init d n groups =
          Inl (ValueError (GroupsEmpty
                 (filter (\<lambda>g. map_of groups g = Some []) (map fst groups))))
        \<and> (\<forall>sampler. grouped_run d n groups sampler =
              ([], Some (ValueError (GroupsEmpty
                     (filter (\<lambda>g. map_of groups g = Some []) (map fst groups)))))))"
  using get_num_images_per_group_cases [of L gs m]
        grouped_construction_fails [of groups d n]
  by blast

text \<open>
  Witness: of the groups 1, 2, 3 the groups 1 and 3 are empty; the function names them,
  the construction fails and a run samples nothing. With every group filled the sizes
  are returned.
\<close>

theorem get_num_images_per_group_empty_group_witness:
  "get_num_images_per_group
     \<lparr>dir_path = ''d'', name = ''images'', grouped = True, group_ids = Some [1, 2, 3],
      group_sample_dict = Some [1 \<mapsto> [], 2 \<mapsto> [''a'', ''b''], 3 \<mapsto> []]\<rparr>
     = Inl (ValueError (GroupsEmpty [1, 3]))
   \<and> get_num_images_per_group
     \<lparr>dir_path = ''d'', name = ''images'', grouped = True, group_ids = Some [1, 2],
      group_sample_dict = Some [1 \<mapsto> [''c''], 2 \<mapsto> [''a'', ''b'']]\<rparr>
     = Inr [1, 2]
   \<and> grouped_run ''d'' ''images'' [(1, []), (2, [''a'', ''b'']), (3, [])]
        (\<lambda>L ns. [0 ..< sum_list ns])
     = ([], Some (ValueError (GroupsEmpty [1, 3])))"
proof -
  have a: "get_num_images_per_group
     \<lparr>dir_path = ''d'', name = ''images'', grouped = True, group_ids = Some [1, 2, 3],
      group_sample_dict = Some [1 \<mapsto> [], 2 \<mapsto> [''a'', ''b''], 3 \<mapsto> []]\<rparr>
     = Inl (ValueError (GroupsEmpty
              (filter (\<lambda>g. [1 \<mapsto> [], 2 \<mapsto> [''a'', ''b''], 3 \<mapsto> []] g = Some [])
                      [1, 2, 3])))"
    by (rule get_num_images_per_group_empty_group
               [of _ "[1, 2, 3]" "[1 \<mapsto> [], 2 \<mapsto> [''a'', ''b''], 3 \<mapsto> []]",
                THEN conjunct1, THEN mp])
       simp
  have c: "grouped_run ''d'' ''images'' [(1, []), (2, [''a'', ''b'']), (3, [])]
        (\<lambda>L ns. [0 ..< sum_list ns])
     = ([], Some (ValueError (GroupsEmpty
              (filter (\<lambda>g. map_of [(1, []), (2, [''a'', ''b'']), (3, [])] g = Some [])
                      (map fst [(1, []), (2, [''a'', ''b'']), (3, [])])))))"
    by (rule get_num_images_per_group_empty_group
               [THEN conjunct2, THEN conjunct2, THEN mp,
                THEN conjunct2, THEN conjunct2, THEN spec])
       simp
  have b: "get_num_images_per_group
     \<lparr>dir_path = ''d'', name = ''images'', grouped = True, group_ids = Some [1, 2],
      group_sample_dict = Some [1 \<mapsto> [''c''], 2 \<mapsto> [''a'', ''b'']]\<rparr>
     = Inr [1, 2]"
    by (simp add: get_num_images_per_group_def)
  from a b c show ?thesis by simp
qed

section \<open>Properties of the data generator\<close>

lemma divide_255_unit_range:
  "list_all (num_within 0 255) (data a) \<Longrightarrow> list_all (num_within 0 1) (data (divide_255 a))"
proof -
  have "num_within 0 255 x \<Longrightarrow> num_within 0 1 (float_divide x 255)" for x
    by (cases x) simp_all
  then show "list_all (num_within 0 255) (data a) \<Longrightarrow>
               list_all (num_within 0 1) (data (divide_255 a))"
    by (simp add: divide_255_def list_all_iff)
qed

lemma fetch_label_delivered:
  "lab \<noteq> Some True \<or> \<not> isl (loader i) \<Longrightarrow>
     fetch_label lab loader i = Inr (if lab = Some True then Some (projr (loader i)) else None)"
  by (cases "loader i") (auto simp: fetch_label_def)

lemma data_generator_from:
  fixes L :: "'i generator_data_loader" and policy :: sample_label and rnd :: "nat \<Rightarrow> nat"
  defines "call \<equiv> \<lambda>(k :: nat) (t :: 'i \<times> 'i \<times> int list).
      sample_image_label policy (rnd k)
        (Some (divide_255 (projr (loader_moving_image L (fst t)))))
        (Some (divide_255 (projr (loader_fixed_image L (fst (snd t))))))
        (if labeled L = Some True then Some (projr (loader_moving_label L (fst t))) else None)
        (if labeled L = Some True then Some (projr (loader_fixed_label L (fst (snd t))))
         else None)
        (snd (snd t))"
  assumes fetched: "\<forall>t \<in> set ts.
        \<not> isl (loader_moving_image L (fst t)) \<and> \<not> isl (loader_fixed_image L (fst (snd t)))
        \<and> (labeled L = Some True \<longrightarrow>
              \<not> isl (loader_moving_label L (fst t))
              \<and> \<not> isl (loader_fixed_label L (fst (snd t))))"
    and returned: "\<forall>(k, t) \<in> set (enumerate n ts). snd (snd (call k t)) = None"
  shows "data_generator L policy (\<lambda>k. rnd (k + n)) ts =
           (concat (map (\<lambda>(k, t). fst (call k t)) (enumerate n ts)),
            concat (map (\<lambda>(k, t). fst (snd (call k t))) (enumerate n ts)),
            None)"
  using fetched returned
proof (induction ts arbitrary: n)
  case Nil
  show ?case by simp
next
  case (Cons t rest)
  obtain mi fi idx where t: "t = (mi, fi, idx)" by (cases t)
  from Cons.prems(1) t obtain M F
    where M: "loader_moving_image L mi = Inr M" and F: "loader_fixed_image L fi = Inr F"
    by (cases "loader_moving_image L mi"; cases "loader_fixed_image L fi") auto
  have lm: "fetch_label (labeled L) (loader_moving_label L) mi =
              Inr (if labeled L = Some True then Some (projr (loader_moving_label L mi))
                   else None)"
    using Cons.prems(1) t by (intro fetch_label_delivered) auto
  have lf: "fetch_label (labeled L) (loader_fixed_label L) fi =
              Inr (if labeled L = Some True then Some (projr (loader_fixed_label L fi))
                   else None)"
    using Cons.prems(1) t by (intro fetch_label_delivered) auto
  have step: "data_generator L policy (\<lambda>k. rnd (k + n)) (t # rest) =
                outcome_then (call n t) (data_generator L policy (\<lambda>k. rnd (k + Suc n)) rest)"
    unfolding t call_def by (simp add: M F lm lf)
  obtain ws ys where c: "call n t = (ws, ys, None)"
    using Cons.prems(2) by (cases "call n t") auto
  have ih: "data_generator L policy (\<lambda>k. rnd (k + Suc n)) rest =
           (concat (map (\<lambda>(k, t). fst (call k t)) (enumerate (Suc n) rest)),
            concat (map (\<lambda>(k, t). fst (snd (call k t))) (enumerate (Suc n) rest)),
            None)"
    using Cons.prems by (intro Cons.IH) auto
  show ?case unfolding step ih by (simp add: c)
qed

text \<open>
  C6. Let the backends deliver every array asked for, and let no call of
  \<open>sample_image_label\<close> raise. Then \<open>data_generator\<close> yields, for every index tuple
  of \<open>sample_index_generator\<close> and in their order, what \<open>sample_image_label\<close> yields
  for the two images of the backends divided by 255 and for the labels: \<open>None\<close> twice
  when the loader is not labeled (the label backends are not asked), the arrays of the
  two label backends when it is. Dividing by 255 keeps the shape and divides every
  value, so that values within [0, 255] end within [0, 1]. In a labeled loader a failure
  of a label backend ends the generator.
\<close>

theorem data_generator_fetches_and_rescales:
  fixes L :: "'i generator_data_loader" and policy :: sample_label and rnd :: "nat \<Rightarrow> nat"
  defines "call \<equiv> \<lambda>(k :: nat) (t :: 'i \<times> 'i \<times> int list).
      sample_image_label policy (rnd k)
        (Some (divide_255 (projr (loader_moving_image L (fst t)))))
        (Some (divide_255 (projr (loader_fixed_image L (fst (snd t))))))
        (if labeled L = Some True then Some (projr (loader_moving_label L (fst t))) else None)
        (if labeled L = Some True then Some (projr (loader_fixed_label L (fst (snd t))))
         else None)
        (snd (snd t))"
  assumes fetched: "\<forall>t \<in> set ts.
        \<not> isl (loader_moving_image L (fst t)) \<and> \<not> isl (loader_fixed_image L (fst (snd t)))
        \<and> (labeled L = Some True \<longrightarrow>
              \<not> isl (loader_moving_label L (fst t))
              \<and> \<not> isl (loader_fixed_label L (fst (snd t))))"
    and returned: "\<forall>(k, t) \<in> set (enumerate 0 ts). snd (snd (call k t)) = None"
  shows "data_generator L policy rnd ts =
           (concat (map (\<lambda>(k, t). fst (call k t)) (enumerate 0 ts)),
            concat (map (\<lambda>(k, t). fst (snd (call k t))) (enumerate 0 ts)),
            None)
       \<and> (\<forall>a. shape (divide_255 a) = shape a
              \<and> data (divide_255 a) = map (\<lambda>x. float_divide x 255) (data a)
              \<and> (list_all (num_within 0 255) (data a) \<longrightarrow>
                    list_all (num_within 0 1) (data (divide_255 a))))
       \<and> (\<forall>mi fi idx rest e.
             labeled L = Some True
             \<and> \<not> isl (loader_moving_image L mi) \<and> \<not> isl (loader_fixed_image L fi)
             \<and> loader_moving_label L mi = Inl e \<longrightarrow>
               data_generator L policy rnd ((mi, fi, idx) # rest) = ([], [], Some e))"
proof (intro conjI allI impI)
  have "data_generator L policy (\<lambda>k. rnd (k + 0)) ts =
           (concat (map (\<lambda>(k, t). fst (call k t)) (enumerate 0 ts)),
            concat (map (\<lambda>(k, t). fst (snd (call k t))) (enumerate 0 ts)),
            None)"
    unfolding call_def
    by (rule data_generator_from) (use fetched returned in \<open>simp_all add: call_def\<close>)
  then show "data_generator L policy rnd ts =
           (concat (map (\<lambda>(k, t). fst (call k t)) (enumerate 0 ts)),
            concat (map (\<lambda>(k, t). fst (snd (call k t))) (enumerate 0 ts)),
            None)"
    by simp
next
  fix a
  show "shape (divide_255 a) = shape a" by (simp add: divide_255_def)
  show "data (divide_255 a) = map (\<lambda>x. float_divide x 255) (data a)"
    by (simp add: divide_255_def)
  show "list_all (num_within 0 1) (data (divide_255 a))"
    if "list_all (num_within 0 255) (data a)"
    using that by (rule divide_255_unit_range)
next
  fix mi fi idx rest e
  assume a: "labeled L = Some True
             \<and> \<not> isl (loader_moving_image L mi) \<and> \<not> isl (loader_fixed_image L fi)
             \<and> loader_moving_label L mi = Inl e"
  then obtain M F
    where "loader_moving_image L mi = Inr M" "loader_fixed_image L fi = Inr F"
    by (cases "loader_moving_image L mi"; cases "loader_fixed_image L fi") auto
  then show "data_generator L policy rnd ((mi, fi, idx) # rest) = ([], [], Some e)"
    using a by (simp add: fetch_label_def)
qed

text \<open>
  Witness: a labeled loader and two index tuples. The image backends deliver the value
  255 at index 0 and 51 at index 1, the label backends the value 1; the two samples hold
  the images 1 and 1/5 in the order asked for, and the labels.
\<close>

theorem data_generator_fetches_and_rescales_witness:
  "data_generator
     \<lparr>labeled = Some True, num_indices = Some 2, sample_label = Some All, seed = None,
      loader_moving_image =
        (\<lambda>i :: nat. Inr \<lparr>shape = [1, 1, 1], data = [Num (if i = 0 then 255 else 51)]\<rparr>),
      loader_fixed_image =
        (\<lambda>i :: nat. Inr \<lparr>shape = [1, 1, 1], data = [Num (if i = 0 then 255 else 51)]\<rparr>),
      loader_moving_label = (\<lambda>i. Inr \<lparr>shape = [1, 1, 1], data = [Num 1]\<rparr>),
      loader_fixed_label = (\<lambda>i. Inr \<lparr>shape = [1, 1, 1], data = [Num 1]\<rparr>)\<rparr>
     All (\<lambda>k. 0) [(0, 1, [0, 1]), (1, 0, [1, 0])] =
   ([],
    [[(''moving_image'', \<lparr>shape = [1, 1, 1], data = [Num 1]\<rparr>),
      (''fixed_image'', \<lparr>shape = [1, 1, 1], data = [Num (1 / 5)]\<rparr>),
      (''moving_label'', \<lparr>shape = [1, 1, 1], data = [Num 1]\<rparr>),
      (''fixed_label'', \<lparr>shape = [1, 1, 1], data = [Num 1]\<rparr>),
      (''indices'', \<lparr>shape = [3], data = [Num 0, Num 1, Num 0]\<rparr>)],
     [(''moving_image'', \<lparr>shape = [1, 1, 1], data = [Num (1 / 5)]\<rparr>),
      (''fixed_image'', \<lparr>shape = [1, 1, 1], data = [Num 1]\<rparr>),
      (''moving_label'', \<lparr>shape = [1, 1, 1], data = [Num 1]\<rparr>),
      (''fixed_label'', \<lparr>shape = [1, 1, 1], data = [Num 1]\<rparr>),
      (''indices'', \<lparr>shape = [3], data = [Num 1, Num 0, Num 0]\<rparr>)]],
    None)"
  using data_generator_fetches_and_rescales
          [of "[(0, 1, [0, 1]), (1, 0, [1, 0])]"
              "\<lparr>labeled = Some True, num_indices = Some 2, sample_label = Some All, seed = None,
                loader_moving_image =
                  (\<lambda>i :: nat. Inr \<lparr>shape = [1, 1, 1],
                                      data = [Num (if i = 0 then 255 else 51)]\<rparr>),
                loader_fixed_image =
                  (\<lambda>i :: nat. Inr \<lparr>shape = [1, 1, 1],
                                      data = [Num (if i = 0 then 255 else 51)]\<rparr>),
                loader_moving_label = (\<lambda>i. Inr \<lparr>shape = [1, 1, 1], data = [Num 1]\<rparr>),
                loader_fixed_label = (\<lambda>i. Inr \<lparr>shape = [1, 1, 1], data = [Num 1]\<rparr>)\<rparr>"
              All "\<lambda>k. 0"]
  by (simp add: sample_image_label_def validate_eval divide_255_def asarray_def)

section \<open>Properties of the dataset pipeline\<close>

lemma length_shuffle_buffer:
  "buffer \<noteq> [] \<or> rest = [] \<Longrightarrow>
     length (shuffle_buffer draw k buffer rest) = length buffer + length rest"
proof (induction draw k buffer rest rule: shuffle_buffer.induct)
  case (1 draw k buffer rest)
  show ?case
  proof (cases "buffer = []")
    case True
    then show ?thesis using "1.prems" by (subst shuffle_buffer.simps) simp
  next
    case False
    define i where "i = draw k mod length buffer"
    have i: "i < length buffer" using False by (simp add: i_def)
    show ?thesis
    proof (cases rest)
      case Nil
      have "length (shuffle_buffer draw (Suc k) (take i buffer @ drop (Suc i) buffer) []) =
              length (take i buffer @ drop (Suc i) buffer) + length ([] :: 'a list)"
        using "1.IH"(1) [OF False i_def Nil] by simp
      then have "length (shuffle_buffer draw (Suc k) (take i buffer @ drop (Suc i) buffer) []) =
              length buffer - 1"
        using i by simp
      then show ?thesis
        using False Nil i by (subst shuffle_buffer.simps) (simp add: i_def [symmetric] Let_def)
    next
      case (Cons x rest')
      have "length (shuffle_buffer draw (Suc k) (buffer[i := x]) rest') =
              length (buffer[i := x]) + length rest'"
        using "1.IH"(2) [OF False i_def Cons] False by simp
      then show ?thesis
        using False Cons by (subst shuffle_buffer.simps) (simp add: i_def [symmetric] Let_def)
    qed
  qed
qed

lemma batch_list_small:
  "0 < b \<Longrightarrow> length xs < b \<Longrightarrow>
     batch_list b dr xs = (if dr \<or> xs = [] then [] else [xs])"
  by (subst batch_list.simps) simp

lemma batch_list_step:
  "0 < b \<Longrightarrow> b \<le> length xs \<Longrightarrow>
     batch_list b dr xs = take b xs # batch_list b dr (drop b xs)"
  by (subst batch_list.simps) auto

lemma batch_list_True_full:
  "x \<in> set (batch_list b True xs) \<Longrightarrow> length x = b"
proof (induction b True xs rule: batch_list.induct)
  case (1 b xs)
  show ?case
  proof (cases "b = 0 \<or> xs = [] \<or> length xs < b")
    case True
    then have "batch_list b True xs = []" by (subst batch_list.simps) auto
    then show ?thesis using "1.prems" by simp
  next
    case False
    then have step: "batch_list b True xs = take b xs # batch_list b True (drop b xs)"
      by (simp add: batch_list_step)
    from "1.prems" step have "x = take b xs \<or> x \<in> set (batch_list b True (drop b xs))"
      by simp
    then show ?thesis
    proof
      assume "x = take b xs"
      then show ?thesis using False by simp
    next
      assume "x \<in> set (batch_list b True (drop b xs))"
      then show ?thesis using "1.hyps" False by simp
    qed
  qed
qed

lemma length_batch_list_True:
  "0 < b \<Longrightarrow> length (batch_list b True xs) = length xs div b"
proof (induction "length xs" arbitrary: xs rule: less_induct)
  case less
  show ?case
  proof (cases "length xs < b")
    case True
    then show ?thesis using less.prems by (simp add: batch_list_small)
  next
    case False
    then have ge: "b \<le> length xs" by simp
    have "length (batch_list b True (drop b xs)) = length (drop b xs) div b"
      using less.hyps [of "drop b xs"] less.prems ge by simp
    then show ?thesis
      using less.prems ge by (simp add: batch_list_step le_div_geq)
  qed
qed

lemma batch_list_False_eq:
  "0 < b \<Longrightarrow>
     batch_list b False xs =
       batch_list b True xs @
       (if length xs mod b = 0 then [] else [drop (b * (length xs div b)) xs])"
proof (induction "length xs" arbitrary: xs rule: less_induct)
  case less
  show ?case
  proof (cases "length xs < b")
    case True
    then show ?thesis using less.prems by (auto simp: batch_list_small)
  next
    case False
    then have ge: "b \<le> length xs" by simp
    have ih: "batch_list b False (drop b xs) =
       batch_list b True (drop b xs) @
       (if length (drop b xs) mod b = 0 then []
        else [drop (b * (length (drop b xs) div b)) (drop b xs)])"
      using less.hyps [of "drop b xs"] less.prems ge by simp
    have m: "(length xs - b) mod b = length xs mod b"
      using ge by (simp add: le_mod_geq)
    have d: "b * ((length xs - b) div b) + b = b * (length xs div b)"
      using ge less.prems by (simp add: le_div_geq)
    show ?thesis
      using less.prems ge ih m d by (simp add: batch_list_step)
  qed
qed

lemma concat_batch_list_False: "0 < b \<Longrightarrow> concat (batch_list b False xs) = xs"
proof (induction "length xs" arbitrary: xs rule: less_induct)
  case less
  show ?case
  proof (cases "length xs < b")
    case True
    then show ?thesis using less.prems by (simp add: batch_list_small)
  next
    case False
    then have ge: "b \<le> length xs" by simp
    have "concat (batch_list b False (drop b xs)) = drop b xs"
      using less.hyps [of "drop b xs"] less.prems ge by simp
    then show ?thesis using less.prems ge by (simp add: batch_list_step)
  qed
qed

lemma length_shuffle:
  "shuffle n draws xs = Inr pass \<Longrightarrow> length (pass e) = length xs"
proof -
  assume a: "shuffle n draws xs = Inr pass"
  then have n: "0 < n" by (auto simp: shuffle_def split: if_splits)
  have p: "pass e = shuffle_buffer (draws e) 0 (take (nat n) xs) (drop (nat n) xs)"
    using a n by (auto simp: shuffle_def)
  have "take (nat n) xs \<noteq> [] \<or> drop (nat n) xs = []"
    using n by (cases xs) auto
  from length_shuffle_buffer [OF this] show ?thesis unfolding p by simp
qed

lemma batch_Inl: "(\<exists>e. batch n dr ds = Inl e) = (n \<le> 0)"
  by (cases ds) (auto simp: batch_def Let_def)

lemma shuffle_Inl: "(\<exists>e. shuffle n draws xs = Inl e) = (n \<le> 0)"
  by (simp add: shuffle_def)


lemmas pipeline_eval =
  get_dataset_and_preprocess_def batch_def shuffle_def Let_def batch_list.simps
  shuffle_buffer.simps



text \<open>
  C5. With a positive \<open>batch_size\<close> and no repetition: when \<open>training\<close> is false the
  batches are the full batches of the resized records followed by the trailing partial
  batch, if the number of records is not a multiple of \<open>batch_size\<close>; that partial
  batch holds the remaining \<open>length records mod batch_size\<close> records. When
  \<open>training\<close> is true only full batches are produced,
  \<open>length records div batch_size\<close> of them, so the partial batch is dropped (without
  shuffling they are the same full batches as before). With repetition every batch is
  full.
\<close>

theorem batching_drops_remainder_iff_training:
  assumes pos: "0 < batch_size"
  shows "get_dataset_and_preprocess env records ms fs False batch_size False sb =
           Inr (Finite
             (batch_list (nat batch_size) True (map (\<lambda>x. resize_inputs env x ms fs) records) @
              (if length records mod nat batch_size = 0 then []
               else [drop (nat batch_size * (length records div nat batch_size))
                          (map (\<lambda>x. resize_inputs env x ms fs) records)])))
       \<and> (\<exists>full. get_dataset_and_preprocess env records ms fs True batch_size False sb =
                    Inr (Finite (map (\<lambda>(j, x). affine_transform env ms fs batch_size j x)
                                     (enumerate 0 full)))
             \<and> length full = length records div nat batch_size
             \<and> (\<forall>b \<in> set full. length b = nat batch_size)
             \<and> (sb \<le> 0 \<longrightarrow>
                  full = batch_list (nat batch_size) True
                           (map (\<lambda>x. resize_inputs env x ms fs) records)))
       \<and> (\<forall>b \<in> set (batch_list (nat batch_size) True
                          (map (\<lambda>x. resize_inputs env x ms fs) records)).
             length b = nat batch_size)
       \<and> (length records mod nat batch_size \<noteq> 0 \<longrightarrow>
             length (drop (nat batch_size * (length records div nat batch_size))
                          (map (\<lambda>x. resize_inputs env x ms fs) records))
               = length records mod nat batch_size
             \<and> length records mod nat batch_size < nat batch_size)
       \<and> (records \<noteq> [] \<longrightarrow>
             (\<exists>g. get_dataset_and_preprocess env records ms fs False batch_size True sb =
                     Inr (Endless g)
                 \<and> (\<forall>j. length (g j) = nat batch_size)))"
proof -
  let ?b = "nat batch_size"
  let ?resized = "map (\<lambda>x. resize_inputs env x ms fs) records"
  have b: "0 < ?b" using pos by simp
  have nle: "\<not> batch_size \<le> 0" "\<not> batch_size < 0" using pos by simp_all
  have eval: "get_dataset_and_preprocess env records ms fs False batch_size False sb =
                Inr (Finite (batch_list ?b False ?resized))"
    using nle by (simp add: get_dataset_and_preprocess_def batch_def Let_def)
  have c1: "get_dataset_and_preprocess env records ms fs False batch_size False sb =
           Inr (Finite
             (batch_list ?b True ?resized @
              (if length records mod ?b = 0 then []
               else [drop (?b * (length records div ?b)) ?resized])))"
    unfolding eval using batch_list_False_eq [OF b, of ?resized] by simp
  have c2: "\<exists>full. get_dataset_and_preprocess env records ms fs True batch_size False sb =
                    Inr (Finite (map (\<lambda>(j, x). affine_transform env ms fs batch_size j x)
                                     (enumerate 0 full)))
             \<and> length full = length records div ?b
             \<and> (\<forall>b \<in> set full. length b = ?b)
             \<and> (sb \<le> 0 \<longrightarrow> full = batch_list ?b True ?resized)"
  proof (cases "0 < sb")
    case True
    then have "\<not> batch_size * sb \<le> 0" using pos by (simp add: mult_le_0_iff)
    then obtain pass where p: "shuffle (batch_size * sb) (shuffle_draw env) ?resized = Inr pass"
      by (simp add: shuffle_def)
    have len: "length (pass 0) = length records" using length_shuffle [OF p, of 0] by simp
    have "get_dataset_and_preprocess env records ms fs True batch_size False sb =
            Inr (Finite (map (\<lambda>(j, x). affine_transform env ms fs batch_size j x)
                             (enumerate 0 (batch_list ?b True (pass 0)))))"
      using True p nle by (simp add: get_dataset_and_preprocess_def batch_def Let_def)
    moreover have "length (batch_list ?b True (pass 0)) = length records div ?b"
      using length_batch_list_True [OF b, of "pass 0"] len by simp
    moreover have "\<forall>x \<in> set (batch_list ?b True (pass 0)). length x = ?b"
      using batch_list_True_full by blast
    ultimately show ?thesis using True by auto
  next
    case False
    have "get_dataset_and_preprocess env records ms fs True batch_size False sb =
            Inr (Finite (map (\<lambda>(j, x). affine_transform env ms fs batch_size j x)
                             (enumerate 0 (batch_list ?b True ?resized))))"
      using False nle by (simp add: get_dataset_and_preprocess_def batch_def Let_def)
    moreover have "length (batch_list ?b True ?resized) = length records div ?b"
      using length_batch_list_True [OF b, of ?resized] by simp
    moreover have "\<forall>x \<in> set (batch_list ?b True ?resized). length x = ?b"
      using batch_list_True_full by blast
    ultimately show ?thesis by blast
  qed
  have c3: "\<forall>x \<in> set (batch_list ?b True ?resized). length x = ?b"
    using batch_list_True_full by blast
  have c4: "length records mod ?b \<noteq> 0 \<longrightarrow>
             length (drop (?b * (length records div ?b)) ?resized) = length records mod ?b
             \<and> length records mod ?b < ?b"
    using b by (simp add: minus_mult_div_eq_mod)
  have c5: "records \<noteq> [] \<longrightarrow>
             (\<exists>g. get_dataset_and_preprocess env records ms fs False batch_size True sb =
                     Inr (Endless g)
                 \<and> (\<forall>j. length (g j) = ?b))"
    using nle by (simp add: get_dataset_and_preprocess_def batch_def repeat_def Let_def)
  from c1 c2 c3 c4 c5 show ?thesis by (intro conjI)
qed

text \<open>
  Witness: five records in batches of two. Without training the batch [5] is kept, with
  training (and no shuffling) it is dropped.
\<close>

theorem batching_drops_remainder_iff_training_witness:
  "get_dataset_and_preprocess
     \<lparr>resize_inputs = (\<lambda>x m f. x), affine_transform = (\<lambda>m f b j xs. xs),
      shuffle_draw = (\<lambda>e k. 0)\<rparr>
     [1, 2, 3, 4, 5 :: nat] [8, 8, 4] [8, 8, 4] False 2 False 1
     = Inr (Finite [[1, 2], [3, 4], [5]])
   \<and> get_dataset_and_preprocess
     \<lparr>resize_inputs = (\<lambda>x m f. x), affine_transform = (\<lambda>m f b j xs. xs),
      shuffle_draw = (\<lambda>e k. 0)\<rparr>
     [1, 2, 3, 4, 5 :: nat] [8, 8, 4] [8, 8, 4] True 2 False 0
     = Inr (Finite [[1, 2], [3, 4]])"
  using batching_drops_remainder_iff_training
          [of 2 "\<lparr>resize_inputs = (\<lambda>x m f. x), affine_transform = (\<lambda>m f b j xs. xs),
                   shuffle_draw = (\<lambda>e k. 0)\<rparr>"
              "[1, 2, 3, 4, 5 :: nat]" "[8, 8, 4]" "[8, 8, 4]" 1]
  by (simp add: pipeline_eval)

end
